theory Spec2Isabelle
  imports Main "HOL-Library.Sublist"
begin

section \<open>The TamilBlasters auto-leech monitor (bot/modules/auto\_tbl.py)\<close>

text \<open>
  A shallow embedding of the module: its global variables are the fields of one record
  that every function takes and returns; each call that leaves the module (HTTP, Telegram,
  the qBittorrent leech entry point, the sleep) is answered by an environment, a record of
  functions indexed by the number of calls made so far, so that the same call may succeed
  at one moment and fail at another; every such call is written to a trace. A raised
  exception is a value: functions that can raise return \<open>exn + 'a\<close> or, when
  they return nothing, \<open>exn option\<close> (\<open>None\<close>: returned normally).
\<close>

subsection \<open>Data\<close>

text \<open>The destination references of the module have the Python type \<open>int | str\<close>.\<close>

datatype chat_ref = ChatId int | ChatName string

text \<open>Python truthiness: \<open>0\<close>, the empty string and \<open>None\<close> are false.\<close>

fun truthy_val :: "chat_ref \<Rightarrow> bool" where
  "truthy_val (ChatId i) = (i \<noteq> 0)"
| "truthy_val (ChatName n) = (n \<noteq> [])"

fun truthy_ref :: "chat_ref option \<Rightarrow> bool" where
  "truthy_ref None = False"
| "truthy_ref (Some r) = truthy_val r"

text \<open>\<open>a or b\<close>: the first operand when it is truthy, the second otherwise.\<close>

definition py_or :: "chat_ref option \<Rightarrow> chat_ref option \<Rightarrow> chat_ref option" where
  "py_or a b = (if truthy_ref a then a else b)"

text \<open>
  The exceptions the module distinguishes. \<open>CancelledError\<close> derives from
  \<open>BaseException\<close>, so \<open>except Exception\<close> does not catch it;
  \<open>RPCError\<close> is the Telegram client's error class; \<open>OtherException\<close>
  stands for every other subclass of \<open>Exception\<close>.
\<close>

datatype exn = CancelledError | RPCError | OtherException

definition is_Exception :: "exn \<Rightarrow> bool" where
  "is_Exception e = (e \<noteq> CancelledError)"

datatype chat_type = PRIVATE | BOT | GROUP | SUPERGROUP | CHANNEL

text \<open>What \<open>bot.get_chat\<close> returns, as far as the module reads it.\<close>

record chat =
  chat_id :: int
  chat_type :: "chat_type option"

text \<open>The \<open>SimpleNamespace(id=..., type=...)\<close> the resolver builds and caches.\<close>

record chat_stub =
  stub_id :: int
  stub_type :: "chat_type option"

text \<open>The dictionaries the crawl returns: a file of a topic, and a topic.\<close>

record tfile =
  ftype :: string
  ftitle :: string
  flink :: string
  fsize :: string

record topic =
  topic_url :: string
  ttitle :: string
  tsize :: string
  links :: "tfile list"

text \<open>The fields of \<open>_AutoCommandMessage\<close> that depend on its arguments.\<close>

record auto_message =
  am_chat :: chat_stub
  am_text :: string
  am_title :: string
  am_from_user :: int

text \<open>The two keys of \<open>config_dict\<close> the module reads (\<open>.get\<close>: \<open>None\<close> when absent).\<close>

record config =
  auto_tbl_channel :: "chat_ref option"
  auto_tbl_command_chat :: "chat_ref option"

text \<open>
  The task handle: the chat the loop was created for, \<open>Task.done()\<close>, and whether
  \<open>Task.cancel()\<close> was called on the task before it ran its first step. Such a task
  ends at its first step without entering the body of the coroutine.
\<close>

record task =
  task_upload_chat :: chat_ref
  task_done :: bool
  task_cancel_requested :: bool

text \<open>
  The trace of the calls that leave the module, newest first. A send is recorded with the
  link of the file whose payload it carries and with its outcome; \<open>EvTrigger\<close>
  marks an invocation of \<open>_trigger_qbleech\<close>, \<open>EvNotConfigured\<close> the log line of
  its "not configured; skipping" branch.
\<close>

datatype event =
    EvCrawl
  | EvDownload string
  | EvSend chat_ref string string bool
  | EvTrigger string
  | EvNotConfigured string
  | EvGetChat chat_ref
  | EvMirrorLeech auto_message
  | EvSleep

text \<open>The module's global variables, and the trace.\<close>

record mstate =
  monitor_task :: "task option"
  monitor_last_links :: "string set"
  monitor_seen_topics :: "string set"
  monitor_command_chat :: "chat_ref option"
  command_chat_cache :: "(chat_ref \<times> chat_stub) option"
  trace :: "event list"

text \<open>The module as loaded: the values of lines 28 to 32.\<close>

definition initial_state :: mstate where
  "initial_state =
     \<lparr>monitor_task = None, monitor_last_links = {}, monitor_seen_topics = {},
      monitor_command_chat = None, command_chat_cache = None, trace = []\<rparr>"

definition log_event :: "event \<Rightarrow> mstate \<Rightarrow> mstate" where
  "log_event e s = s\<lparr>trace := e # trace s\<rparr>"

text \<open>The number of calls made so far: the index at which the environment is asked.\<close>

definition now :: "mstate \<Rightarrow> nat" where
  "now s = length (trace s)"

subsection \<open>The environment\<close>

text \<open>
  Python's string methods and the size regular expression of \<open>_extract_size\<close> act on
  Unicode text; no property below depends on what they return, so they are parameters:
  \<open>str_strip\<close> is \<open>str.strip()\<close>, \<open>title_of_text\<close> the chain
  \<open>replace(...).rstrip(".torrent").strip()\<close>, \<open>extract_size\<close> is \<open>_extract_size\<close>.
\<close>

record pytext =
  str_strip :: "string \<Rightarrow> string"
  title_of_text :: "string \<Rightarrow> string"
  extract_size :: "string \<Rightarrow> string"

text \<open>An anchor of a topic page: \<open>tag.get("href")\<close> and \<open>tag.get_text(strip=True)\<close>.\<close>

record tag =
  tag_href :: "string option"
  tag_text :: string

text \<open>
  The source site at one moment, as the scraper and the HTML parser deliver it:
  \<open>home_page\<close> is the outcome of the GET of \<open>_BASE_URL\<close> with \<open>raise_for_status\<close>,
  and on success the \<open>href\<close> values of the anchors \<open>find_all\<close> matched, in document
  order; \<open>topic_page\<close> is the outcome of the GET and parse of one topic, and on success
  the anchors with \<open>data-fileext="torrent"\<close>.
\<close>

record site =
  home_page :: "exn + string list"
  topic_page :: "string \<Rightarrow> exn + tag list"

record env =
  text_ops :: pytext
  site_at :: "nat \<Rightarrow> site"
  crawl_fault :: "nat \<Rightarrow> exn option"
  config_dict :: "nat \<Rightarrow> config"
  download_torrent :: "nat \<Rightarrow> string \<Rightarrow> exn + string option"
  send_document :: "nat \<Rightarrow> chat_ref \<Rightarrow> string \<Rightarrow> string \<Rightarrow> string \<Rightarrow> exn option"
  get_chat :: "nat \<Rightarrow> chat_ref \<Rightarrow> exn + chat"
  mirror_leech :: "nat \<Rightarrow> auto_message \<Rightarrow> exn option"
  sleep :: "nat \<Rightarrow> exn option"
  qb_leech_command :: string
  owner_id :: int

subsection \<open>\<open>_sanitize_filename\<close>\<close>

text \<open>The character class \<open>[0-9A-Za-z._-]\<close>.\<close>

definition safe_char :: "char \<Rightarrow> bool" where
  "safe_char c \<longleftrightarrow>
     (let n = of_char c :: nat in
        (48 \<le> n \<and> n \<le> 57) \<or> (65 \<le> n \<and> n \<le> 90) \<or> (97 \<le> n \<and> n \<le> 122)
        \<or> c = CHR ''.'' \<or> c = CHR ''_'' \<or> c = CHR ''-'')"

text \<open>
  \<open>re.sub(r"[^0-9A-Za-z._-]+", "_", name)\<close>: every maximal run of characters outside
  the class becomes one underscore. (A character beyond ASCII is several bytes of a
  \<open>string\<close>, all outside the class: the run they form is replaced as a whole, as
  the one code point is in Python.)
\<close>

function re_sub_unsafe :: "string \<Rightarrow> string" where
  "re_sub_unsafe [] = []"
| "re_sub_unsafe (c # cs) =
     (if safe_char c then c # re_sub_unsafe cs
      else CHR ''_'' # re_sub_unsafe (dropWhile (\<lambda>d. \<not> safe_char d) cs))"
  by pat_completeness auto
termination
  by (relation "measure length") (auto simp: less_Suc_eq_le length_dropWhile_le)

text \<open>\<open>.strip("_")\<close>: leading and trailing underscores are removed.\<close>

definition strip_underscores :: "string \<Rightarrow> string" where
  "strip_underscores s =
     rev (dropWhile (\<lambda>c. c = CHR ''_'') (rev (dropWhile (\<lambda>c. c = CHR ''_'') s)))"

definition sanitize_filename :: "string \<Rightarrow> string" where
  "sanitize_filename name =
     (if name = [] then ''tbl_torrent.torrent''
      else let safe = strip_underscores (re_sub_unsafe name)
           in (if safe = [] then ''tbl_torrent'' else safe) @ ''.torrent'')"

subsection \<open>\<open>_crawl_tbl_sync\<close>\<close>

definition BASE_URL :: string where
  "BASE_URL = ''https://www.1tamilmv.land/''"

definition MAX_TOPICS :: nat where
  "MAX_TOPICS = 15"

text \<open>
  \<open>list(dict.fromkeys(xs))\<close>: the keys in insertion order; a key that is already
  there keeps its place.
\<close>

definition fromkeys :: "'a list \<Rightarrow> 'a list" where
  "fromkeys xs = fold (\<lambda>x keys. if x \<in> set keys then keys else keys @ [x]) xs []"

definition full_url_of :: "string \<Rightarrow> string" where
  "full_url_of rel_url = (if take 4 rel_url = ''http'' then rel_url else BASE_URL @ rel_url)"

text \<open>One anchor of a topic page: skipped when its \<open>href\<close> is missing or empty.\<close>

definition file_of_tag :: "pytext \<Rightarrow> tag \<Rightarrow> tfile option" where
  "file_of_tag tx t =
     (case tag_href t of
        None \<Rightarrow> None
      | Some href \<Rightarrow>
          if href = [] then None
          else Some \<lparr>ftype = ''torrent'', ftitle = title_of_text tx (tag_text t),
                     flink = str_strip tx href, fsize = extract_size tx (tag_text t)\<rparr>)"

definition file_links_of :: "pytext \<Rightarrow> tag list \<Rightarrow> tfile list" where
  "file_links_of tx tags = List.map_filter (file_of_tag tx) tags"

text \<open>
  The loop over the topic links. An \<open>Exception\<close> while a topic is fetched or parsed
  is logged and the topic contributes nothing; a topic without files is not appended.
\<close>

fun crawl_topics :: "pytext \<Rightarrow> site \<Rightarrow> string list \<Rightarrow> topic list \<Rightarrow> exn + topic list" where
  "crawl_topics tx st [] torrents = Inr torrents"
| "crawl_topics tx st (rel_url # rest) torrents =
     (let full_url = full_url_of rel_url in
      case topic_page st full_url of
        Inl e \<Rightarrow> if is_Exception e then crawl_topics tx st rest torrents else Inl e
      | Inr tags \<Rightarrow>
          (case file_links_of tx tags of
             [] \<Rightarrow> crawl_topics tx st rest torrents
           | f0 # fs \<Rightarrow>
               crawl_topics tx st rest
                 (torrents @ [\<lparr>topic_url = full_url, ttitle = ftitle f0, tsize = fsize f0,
                                links = f0 # fs\<rparr>])))"

text \<open>The topic links the loop visits: line 102.\<close>

definition visited_links :: "string list \<Rightarrow> string list" where
  "visited_links hrefs = take MAX_TOPICS (fromkeys (filter (\<lambda>h. h \<noteq> []) hrefs))"

definition crawl_tbl_sync :: "pytext \<Rightarrow> site \<Rightarrow> exn + topic list" where
  "crawl_tbl_sync tx st =
     (case home_page st of
        Inl e \<Rightarrow> if is_Exception e then Inr [] else Inl e
      | Inr hrefs \<Rightarrow> crawl_topics tx st (visited_links hrefs) [])"

text \<open>
  \<open>await _crawl_tbl()\<close>: the crawl runs in a worker thread. \<open>crawl_fault\<close> is an
  exception that reaches the awaiting loop without passing the handlers of
  \<open>_crawl_tbl_sync\<close>: the cancellation of the await, or a fault of a statement outside
  its \<open>try\<close> blocks.
\<close>

definition crawl_tbl :: "env \<Rightarrow> nat \<Rightarrow> exn + topic list" where
  "crawl_tbl ev n =
     (case crawl_fault ev n of
        Some e \<Rightarrow> Inl e
      | None \<Rightarrow> crawl_tbl_sync (text_ops ev) (site_at ev n))"

subsection \<open>\<open>_resolve_command_chat\<close>\<close>

text \<open>
  A hit (the cache holds an entry whose key equals the reference) returns the cached stub
  and calls nothing. Otherwise \<open>bot.get_chat\<close> is called: an \<open>RPCError\<close> is
  logged and \<open>None\<close> returned, any other exception leaves the function, and a
  result is stored as the cache's one entry.
\<close>

definition resolve_command_chat ::
  "env \<Rightarrow> chat_ref \<Rightarrow> mstate \<Rightarrow> (exn + chat_stub option) \<times> mstate" where
  "resolve_command_chat ev ref s =
     (case (case command_chat_cache s of
              Some (k, v) \<Rightarrow> if k = ref then Some v else None
            | None \<Rightarrow> None) of
        Some v \<Rightarrow> (Inr (Some v), s)
      | None \<Rightarrow>
          (let s1 = log_event (EvGetChat ref) s in
           case get_chat ev (now s) ref of
             Inl e \<Rightarrow> if e = RPCError then (Inr None, s1) else (Inl e, s1)
           | Inr c \<Rightarrow>
               (let chat_stub = \<lparr>stub_id = chat_id c,
                                  stub_type = Some (case chat_type c of
                                                      Some t \<Rightarrow> t
                                                    | None \<Rightarrow> SUPERGROUP)\<rparr>
                in (Inr (Some chat_stub),
                    s1\<lparr>command_chat_cache := Some (ref, chat_stub)\<rparr>))))"

subsection \<open>\<open>_trigger_qbleech\<close>\<close>

text \<open>The decimal digits of a natural number, most significant first.\<close>

function dec_digits :: "nat \<Rightarrow> nat list" where
  "dec_digits n = (if n < 10 then [n] else dec_digits (n div 10) @ [n mod 10])"
  by pat_completeness auto
termination
  by (relation "measure id") auto

text \<open>\<open>str(chat.id).startswith('-100')\<close>.\<close>

definition str_starts_minus100 :: "int \<Rightarrow> bool" where
  "str_starts_minus100 i = (i < 0 \<and> take 3 (dec_digits (nat (- i))) = [1, 0, 0])"

text \<open>\<open>_AutoCommandMessage(chat, link, title or "TamilAuto")\<close>.\<close>

definition auto_command_message :: "env \<Rightarrow> chat_stub \<Rightarrow> string \<Rightarrow> string \<Rightarrow> auto_message" where
  "auto_command_message ev ch link title =
     \<lparr>am_chat = ch, am_text = ''/'' @ qb_leech_command ev @ '' '' @ link,
      am_title = (if title = [] then ''TamilAuto'' else title), am_from_user = owner_id ev\<rparr>"

text \<open>
  The stub the resolver returned is the object the cache holds, so the assignment to
  \<open>chat.type\<close> on line 197 changes the cached entry as well. \<open>_mirror_leech\<close> is
  called, not awaited; an \<open>Exception\<close> it raises is logged.
  \<open>trigger_chat_ref\<close> is line 189, read from \<open>config_dict\<close> as it is at the call.
\<close>

definition trigger_chat_ref :: "config \<Rightarrow> mstate \<Rightarrow> chat_ref option" where
  "trigger_chat_ref cfg s =
     py_or (monitor_command_chat s) (py_or (auto_tbl_command_chat cfg) (auto_tbl_channel cfg))"

definition trigger_qbleech :: "env \<Rightarrow> string \<Rightarrow> string \<Rightarrow> mstate \<Rightarrow> exn option \<times> mstate" where
  "trigger_qbleech ev link title s =
     (let s0 = log_event (EvTrigger link) s;
          chat_ref = trigger_chat_ref (config_dict ev (now s)) s
      in case (if truthy_ref chat_ref then chat_ref else None) of
           None \<Rightarrow> (None, log_event (EvNotConfigured link) s0)
         | Some ref \<Rightarrow>
             (case resolve_command_chat ev ref s0 of
                (Inl e, s1) \<Rightarrow> (Some e, s1)
              | (Inr None, s1) \<Rightarrow> (None, s1)
              | (Inr (Some ch), s1) \<Rightarrow>
                  (let ch' = (if stub_type ch = None
                              then ch\<lparr>stub_type := Some (if str_starts_minus100 (stub_id ch)
                                                          then SUPERGROUP else PRIVATE)\<rparr>
                              else ch);
                       s2 = (if stub_type ch = None
                             then s1\<lparr>command_chat_cache :=
                                       map_option (\<lambda>(k, v). (k, ch')) (command_chat_cache s1)\<rparr>
                             else s1);
                       auto_message = auto_command_message ev ch' link title;
                       s3 = log_event (EvMirrorLeech auto_message) s2
                   in case mirror_leech ev (now s2) auto_message of
                        None \<Rightarrow> (None, s3)
                      | Some e \<Rightarrow> if is_Exception e then (None, s3) else (Some e, s3))))"

subsection \<open>\<open>_tamilblasters_monitor\<close>\<close>

text \<open>
  The caption of line 228. The two escapes of the source (code units d83d and dce6) are
  the surrogate pair of the character U+1F4E6, written here as the four bytes of its
  UTF-8 form.
\<close>

definition caption_of :: "tfile \<Rightarrow> string" where
  "caption_of f =
     ftitle f @ [CHR 0x0A] @ [CHR 0xF0, CHR 0x9F, CHR 0x93, CHR 0xA6] @ '' '' @ fsize f
       @ [CHR 0x0A] @ ''#tmv torrent file''"

text \<open>
  The body of the loop over \<open>new_files\<close> (lines 224 to 238) for one file.
  \<open>_download_torrent\<close> returns \<open>None\<close> when the download failed; the await itself
  can raise. \<open>send_document\<close> returns or raises: an \<open>RPCError\<close> is logged and
  the loop continues with the next file, every other exception leaves the loop.
\<close>

definition process_file :: "env \<Rightarrow> chat_ref \<Rightarrow> tfile \<Rightarrow> mstate \<Rightarrow> exn option \<times> mstate" where
  "process_file ev upload_chat f s =
     (let s1 = log_event (EvDownload (flink f)) s in
      case download_torrent ev (now s) (flink f) of
        Inl e \<Rightarrow> (Some e, s1)
      | Inr None \<Rightarrow> (None, s1)
      | Inr (Some file_bytes) \<Rightarrow>
          (let filename = sanitize_filename (ftitle f);
               caption = caption_of f
           in case send_document ev (now s1) upload_chat file_bytes filename caption of
                Some e \<Rightarrow>
                  (let s2 = log_event (EvSend upload_chat (flink f) filename False) s1
                   in if e = RPCError then (None, s2) else (Some e, s2))
              | None \<Rightarrow>
                  (let s2 = log_event (EvSend upload_chat (flink f) filename True) s1;
                       s3 = s2\<lparr>monitor_last_links := insert (flink f) (monitor_last_links s2)\<rparr>
                   in trigger_qbleech ev (flink f) (ftitle f) s3)))"

fun process_files :: "env \<Rightarrow> chat_ref \<Rightarrow> tfile list \<Rightarrow> mstate \<Rightarrow> exn option \<times> mstate" where
  "process_files ev upload_chat [] s = (None, s)"
| "process_files ev upload_chat (f # fs) s =
     (case process_file ev upload_chat f s of
        (Some e, s') \<Rightarrow> (Some e, s')
      | (None, s') \<Rightarrow> process_files ev upload_chat fs s')"

text \<open>Line 219: the files of a topic whose link is not in \<open>_monitor_last_links\<close>.\<close>

definition new_files :: "mstate \<Rightarrow> topic \<Rightarrow> tfile list" where
  "new_files s t = filter (\<lambda>f. flink f \<notin> monitor_last_links s) (links t)"

text \<open>Line 220: the topic is passed over.\<close>

definition skipped :: "mstate \<Rightarrow> topic \<Rightarrow> bool" where
  "skipped s t \<longleftrightarrow> topic_url t \<in> monitor_seen_topics s \<and> new_files s t = []"

text \<open>The body of the loop over \<open>torrents\<close> (lines 217 to 240) for one topic.\<close>

definition process_topic :: "env \<Rightarrow> chat_ref \<Rightarrow> topic \<Rightarrow> mstate \<Rightarrow> exn option \<times> mstate" where
  "process_topic ev upload_chat t s =
     (if skipped s t then (None, s)
      else case process_files ev upload_chat (new_files s t) s of
             (Some e, s') \<Rightarrow> (Some e, s')
           | (None, s') \<Rightarrow>
               (None, s'\<lparr>monitor_seen_topics := insert (topic_url t) (monitor_seen_topics s')\<rparr>))"

fun process_topics :: "env \<Rightarrow> chat_ref \<Rightarrow> topic list \<Rightarrow> mstate \<Rightarrow> exn option \<times> mstate" where
  "process_topics ev upload_chat [] s = (None, s)"
| "process_topics ev upload_chat (t # ts) s =
     (case process_topic ev upload_chat t s of
        (Some e, s') \<Rightarrow> (Some e, s')
      | (None, s') \<Rightarrow> process_topics ev upload_chat ts s')"

text \<open>
  Lines 210 to 214: the topics one cycle works on. An \<open>Exception\<close> of the crawl is
  logged and the cycle has no topics.
\<close>

definition cycle_torrents :: "env \<Rightarrow> nat \<Rightarrow> exn + topic list" where
  "cycle_torrents ev n =
     (case crawl_tbl ev n of
        Inl e \<Rightarrow> if is_Exception e then Inr [] else Inl e
      | Inr torrents \<Rightarrow> Inr torrents)"

text \<open>One turn of \<open>while True\<close>: crawl, the topics, the sleep.\<close>

definition poll_cycle :: "env \<Rightarrow> chat_ref \<Rightarrow> mstate \<Rightarrow> exn option \<times> mstate" where
  "poll_cycle ev upload_chat s =
     (let s1 = log_event EvCrawl s in
      case cycle_torrents ev (now s) of
        Inl e \<Rightarrow> (Some e, s1)
      | Inr torrents \<Rightarrow>
          (case process_topics ev upload_chat torrents s1 of
             (Some e, s2) \<Rightarrow> (Some e, s2)
           | (None, s2) \<Rightarrow> (sleep ev (now s2), log_event EvSleep s2)))"

text \<open>
  \<open>while True\<close> has no exit of its own. The loop is run for a number of cycles:
  \<open>Some e\<close> is the exception that left it, \<open>None\<close> says that after
  that many cycles it is still running.
\<close>

fun monitor_loop :: "env \<Rightarrow> chat_ref \<Rightarrow> nat \<Rightarrow> mstate \<Rightarrow> exn option \<times> mstate" where
  "monitor_loop ev upload_chat 0 s = (None, s)"
| "monitor_loop ev upload_chat (Suc n) s =
     (case poll_cycle ev upload_chat s of
        (Some e, s') \<Rightarrow> (Some e, s')
      | (None, s') \<Rightarrow> monitor_loop ev upload_chat n s')"

text \<open>
  The task that runs the coroutine has been cancelled before its first step: the handle
  holds a task that is not done and on which \<open>cancel()\<close> was called.
\<close>

definition cancelled_before_first_step :: "mstate \<Rightarrow> bool" where
  "cancelled_before_first_step s \<longleftrightarrow>
     (case monitor_task s of
        Some t \<Rightarrow> task_cancel_requested t \<and> \<not> task_done t
      | None \<Rightarrow> False)"

text \<open>
  The execution of the task from its first step, in the state that step finds. A task
  cancelled before its first step ends with \<open>CancelledError\<close> without entering the
  coroutine: neither the \<open>try\<close> nor its \<open>finally\<close> runs, and the handle keeps the
  task, which is now done. Otherwise the coroutine runs with its handlers:
  \<open>except CancelledError\<close> logs and raises again, and \<open>finally\<close> clears the task
  handle on whatever exception leaves the loop.
\<close>

definition tamilblasters_monitor ::
  "env \<Rightarrow> chat_ref \<Rightarrow> nat \<Rightarrow> mstate \<Rightarrow> exn option \<times> mstate" where
  "tamilblasters_monitor ev upload_chat n s =
     (if cancelled_before_first_step s
      then (Some CancelledError,
            s\<lparr>monitor_task := map_option (\<lambda>t. t\<lparr>task_done := True\<rparr>) (monitor_task s)\<rparr>)
      else case monitor_loop ev upload_chat n s of
             (Some e, s') \<Rightarrow> (Some e, s'\<lparr>monitor_task := None\<rparr>)
           | (None, s') \<Rightarrow> (None, s'))"

subsection \<open>\<open>_start_monitor\<close>\<close>

text \<open>The three replies \<open>_start_monitor\<close> sends to the operator.\<close>

datatype start_status = NotConfigured | AlreadyRunning | Started

text \<open>
  \<open>cfg\<close> is \<open>config_dict\<close> when the command arrives and \<open>msg_chat_id\<close> is
  \<open>message.chat.id\<close>. The new task is created for \<open>upload_chat\<close>; its body is
  \<open>tamilblasters_monitor\<close>.
\<close>

definition start_monitor :: "config \<Rightarrow> int \<Rightarrow> mstate \<Rightarrow> start_status \<times> mstate" where
  "start_monitor cfg msg_chat_id s =
     (case (if truthy_ref (auto_tbl_channel cfg) then auto_tbl_channel cfg else None) of
        None \<Rightarrow> (NotConfigured, s)
      | Some upload_chat \<Rightarrow>
          if (case monitor_task s of Some t \<Rightarrow> \<not> task_done t | None \<Rightarrow> False)
          then (AlreadyRunning, s)
          else (Started,
                s\<lparr>monitor_command_chat :=
                     py_or (auto_tbl_command_chat cfg) (Some (ChatId msg_chat_id)),
                  command_chat_cache := None,
                  monitor_task := Some \<lparr>task_upload_chat = upload_chat, task_done = False,
                                         task_cancel_requested = False\<rparr>\<rparr>))"

subsection \<open>\<open>_stop_monitor\<close>\<close>

text \<open>The two replies \<open>_stop_monitor\<close> sends to the operator.\<close>

datatype stop_status = NotRunning | Stopped

text \<open>
  Lines 269 to 274. \<open>cancel()\<close> on a task that has not run its first step marks the
  task. On a task that is suspended at an await it makes that await raise
  \<open>CancelledError\<close>; which await raises is the environment's answer, so for such a
  task the model of the cancellation is an environment whose call raises. The
  \<open>await _monitor_task\<close> of line 276 is the rest of the task's execution, and the reply
  "stopped" follows it.
\<close>

definition stop_monitor :: "mstate \<Rightarrow> stop_status \<times> mstate" where
  "stop_monitor s =
     (case monitor_task s of
        None \<Rightarrow> (NotRunning, s)
      | Some t \<Rightarrow>
          if task_done t then (NotRunning, s)
          else (Stopped, s\<lparr>monitor_task := Some (t\<lparr>task_cancel_requested := True\<rparr>)\<rparr>))"

section \<open>Notions used in the statements\<close>

text \<open>
  The events a computation added to the trace, newest first: what the trace of the later
  state \<open>s'\<close> has in front of the trace of the earlier state \<open>s\<close>.
\<close>

definition stretch :: "mstate \<Rightarrow> mstate \<Rightarrow> event list" where
  "stretch s s' = take (length (trace s') - length (trace s)) (trace s')"

text \<open>
  Read off a list of events: the links of the successful sends, the links
  \<open>_trigger_qbleech\<close> was invoked for, the links its "not configured" branch logged,
  the links of the downloads in the order of the list, and the number of sleeps.
\<close>

fun delivered_links :: "event list \<Rightarrow> string set" where
  "delivered_links [] = {}"
| "delivered_links (EvSend c l fn ok # es) =
     (if ok then insert l (delivered_links es) else delivered_links es)"
| "delivered_links (e # es) = delivered_links es"

fun triggered_links :: "event list \<Rightarrow> string set" where
  "triggered_links [] = {}"
| "triggered_links (EvTrigger l # es) = insert l (triggered_links es)"
| "triggered_links (e # es) = triggered_links es"

fun unconfigured_triggers :: "event list \<Rightarrow> string set" where
  "unconfigured_triggers [] = {}"
| "unconfigured_triggers (EvNotConfigured l # es) = insert l (unconfigured_triggers es)"
| "unconfigured_triggers (e # es) = unconfigured_triggers es"

fun download_links :: "event list \<Rightarrow> string list" where
  "download_links [] = []"
| "download_links (EvDownload l # es) = l # download_links es"
| "download_links (e # es) = download_links es"


text \<open>
  The list starts with a step of the chat resolution: the call of \<open>get_chat\<close> a cache
  miss makes, or the call of \<open>_mirror_leech\<close> that follows a cache hit.
\<close>

fun resolution_next :: "event list \<Rightarrow> bool" where
  "resolution_next (EvGetChat r # es) = True"
| "resolution_next (EvMirrorLeech m # es) = True"
| "resolution_next es = False"

text \<open>
  In a list of events, oldest first, every invocation of \<open>_trigger_qbleech\<close> is
  directly followed by a step of the chat resolution.
\<close>

fun triggers_resolve :: "event list \<Rightarrow> bool" where
  "triggers_resolve [] = True"
| "triggers_resolve (EvTrigger l # es) = (resolution_next es \<and> triggers_resolve es)"
| "triggers_resolve (e # es) = triggers_resolve es"

text \<open>An event that is neither a successful send, nor a trigger, nor that log line.\<close>

definition neutral :: "event \<Rightarrow> bool" where
  "neutral e \<longleftrightarrow>
     delivered_links [e] = {} \<and> triggered_links [e] = {} \<and> unconfigured_triggers [e] = {}"

text \<open>
  Line 189 finds a truthy destination whenever it is evaluated: the recorded command chat
  is truthy, or \<open>config_dict\<close> holds a truthy command chat or channel at every moment.
\<close>

definition always_configured :: "env \<Rightarrow> mstate \<Rightarrow> bool" where
  "always_configured ev s \<longleftrightarrow>
     truthy_ref (monitor_command_chat s)
     \<or> (\<forall>n. truthy_ref (py_or (auto_tbl_command_chat (config_dict ev n))
                               (auto_tbl_channel (config_dict ev n))))"

text \<open>
  What every part of the loop maintains between the state it starts in and the state it
  ends in: the task handle and the recorded command chat are unchanged, the set of seen
  topics grows, the trace is extended, the links added to the seen links are those of the
  successful sends of the extension, each of which was downloaded in it, every trigger of
  the extension is for a seen link, and when a destination is always found the "not
  configured" branch is not taken and every trigger goes on to the chat resolution. The
  parts inside a poll cycle (\<open>inner\<close>) add neither a crawl nor a sleep.
\<close>

definition run_rel :: "env \<Rightarrow> bool \<Rightarrow> mstate \<Rightarrow> mstate \<Rightarrow> bool" where
  "run_rel ev inner s s' \<longleftrightarrow>
     monitor_task s' = monitor_task s
     \<and> monitor_command_chat s' = monitor_command_chat s
     \<and> monitor_seen_topics s \<subseteq> monitor_seen_topics s'
     \<and> trace s' = stretch s s' @ trace s
     \<and> monitor_last_links s' = monitor_last_links s \<union> delivered_links (stretch s s')
     \<and> delivered_links (stretch s s') \<subseteq> set (download_links (stretch s s'))
     \<and> triggered_links (stretch s s') \<subseteq> monitor_last_links s'
     \<and> (always_configured ev s \<longrightarrow>
            unconfigured_triggers (stretch s s') = {}
            \<and> triggers_resolve (rev (stretch s s')))
     \<and> (inner \<longrightarrow> EvSleep \<notin> set (stretch s s') \<and> EvCrawl \<notin> set (stretch s s'))"

text \<open>
  The per-item pipeline started at call index \<open>n\<close> delivers the file: the download
  returns a payload and the send that follows returns.
\<close>

definition delivered_ok :: "env \<Rightarrow> chat_ref \<Rightarrow> tfile \<Rightarrow> nat \<Rightarrow> bool" where
  "delivered_ok ev c f n \<longleftrightarrow>
     (case download_torrent ev n (flink f) of
        Inl e \<Rightarrow> False
      | Inr None \<Rightarrow> False
      | Inr (Some file_bytes) \<Rightarrow>
          send_document ev (Suc n) c file_bytes (sanitize_filename (ftitle f)) (caption_of f)
            = None)"



section \<open>Concrete inputs\<close>

text \<open>
  A site with one topic that holds one file, a configuration with a channel and no
  command chat, and an environment in which every call succeeds and the first sleep is
  cancelled, as a stop command does.
\<close>

definition demo_text :: pytext where
  "demo_text =
     \<lparr>str_strip = (\<lambda>x. x), title_of_text = (\<lambda>x. x), extract_size = (\<lambda>x. ''Unknown'')\<rparr>"

definition demo_site :: site where
  "demo_site =
     \<lparr>home_page = Inr [''/forums/topic/1''],
      topic_page = (\<lambda>u. Inr [\<lparr>tag_href = Some ''L1'', tag_text = ''a b''\<rparr>])\<rparr>"

definition demo_file :: tfile where
  "demo_file = \<lparr>ftype = ''torrent'', ftitle = ''a b'', flink = ''L1'', fsize = ''Unknown''\<rparr>"

definition demo_topic :: topic where
  "demo_topic =
     \<lparr>topic_url = ''https://www.1tamilmv.land//forums/topic/1'', ttitle = ''a b'',
      tsize = ''Unknown'', links = [demo_file]\<rparr>"

definition demo_cfg :: config where
  "demo_cfg = \<lparr>auto_tbl_channel = Some (ChatId (- 1001)), auto_tbl_command_chat = None\<rparr>"

definition demo_stub :: chat_stub where
  "demo_stub = \<lparr>stub_id = 42, stub_type = Some PRIVATE\<rparr>"

definition demo_env :: env where
  "demo_env =
     \<lparr>text_ops = demo_text, site_at = (\<lambda>n. demo_site), crawl_fault = (\<lambda>n. None),
      config_dict = (\<lambda>n. demo_cfg),
      download_torrent = (\<lambda>n l. Inr (Some ''payload'')),
      send_document = (\<lambda>n c b fn cap. None),
      get_chat = (\<lambda>n r. Inr \<lparr>chat_id = 42, chat_type = Some PRIVATE\<rparr>),
      mirror_leech = (\<lambda>n m. None),
      sleep = (\<lambda>n. Some CancelledError),
      qb_leech_command = ''qbleech'', owner_id = 1\<rparr>"

text \<open>The sends raise an exception that is not an \<open>RPCError\<close>; nothing is cancelled.\<close>

definition env_send_fault :: env where
  "env_send_fault =
     demo_env\<lparr>send_document := (\<lambda>n c b fn cap. Some OtherException), sleep := (\<lambda>n. None)\<rparr>"

text \<open>The sends raise an \<open>RPCError\<close>; nothing is cancelled.\<close>

definition env_send_rpc :: env where
  "env_send_rpc =
     demo_env\<lparr>send_document := (\<lambda>n c b fn cap. Some RPCError), sleep := (\<lambda>n. None)\<rparr>"

text \<open>
  The first crawl raises, the first send raises an \<open>RPCError\<close>, every call of
  \<open>_mirror_leech\<close> raises, \<open>get_chat\<close> raises an \<open>RPCError\<close> for every
  reference but one; nothing is cancelled.
\<close>

definition env_tame :: env where
  "env_tame =
     demo_env\<lparr>crawl_fault := (\<lambda>n. if n = 0 then Some OtherException else None),
               send_document := (\<lambda>n c b fn cap. if n < 5 then Some RPCError else None),
               get_chat := (\<lambda>n r. if r = ChatId 42
                                   then Inr \<lparr>chat_id = 42, chat_type = Some PRIVATE\<rparr>
                                   else Inl RPCError),
               mirror_leech := (\<lambda>n m. Some OtherException),
               sleep := (\<lambda>n. None)\<rparr>"

text \<open>
  Every call succeeds and nothing is cancelled, but both keys have been removed from
  \<open>config_dict\<close> since the run was started.
\<close>

definition env_unconfigured :: env where
  "env_unconfigured =
     demo_env\<lparr>config_dict := (\<lambda>n. \<lparr>auto_tbl_channel = None, auto_tbl_command_chat = None\<rparr>),
               sleep := (\<lambda>n. None)\<rparr>"

text \<open>The module after a first start, and after the run that start created was stopped.\<close>

definition started_state :: mstate where
  "started_state = snd (start_monitor demo_cfg 42 initial_state)"

definition stopped_state :: mstate where
  "stopped_state = snd (tamilblasters_monitor demo_env (ChatId (- 1001)) 1 started_state)"

text \<open>
  The module after one poll cycle of that run in which the send raised an
  \<open>RPCError\<close>, and after \<open>_stop_monitor\<close> cancelled the new task before its first
  step.
\<close>

definition failed_cycle_state :: mstate where
  "failed_cycle_state = snd (poll_cycle env_send_rpc (ChatId (- 1001)) started_state)"


text \<open>The module after a first start by a message whose chat id is 0.\<close>

definition zero_started_state :: mstate where
  "zero_started_state = snd (start_monitor demo_cfg 0 initial_state)"

text \<open>A home page with eighteen topic links, sixteen of them different.\<close>

definition many_hrefs :: "string list" where
  "many_hrefs =
     map (\<lambda>x. ''/t/'' @ [x]) ''abacbdefghijklmnop''"

definition many_site :: site where
  "many_site = demo_site\<lparr>home_page := Inr many_hrefs\<rparr>"

section \<open>Properties\<close>

subsection \<open>The state and the trace along a run\<close>

lemma delivered_links_append [simp]:
  "delivered_links (xs @ ys) = delivered_links xs \<union> delivered_links ys"
  by (induction xs rule: delivered_links.induct) auto

lemma triggered_links_append [simp]:
  "triggered_links (xs @ ys) = triggered_links xs \<union> triggered_links ys"
  by (induction xs rule: triggered_links.induct) auto

lemma unconfigured_triggers_append [simp]:
  "unconfigured_triggers (xs @ ys) = unconfigured_triggers xs \<union> unconfigured_triggers ys"
  by (induction xs rule: unconfigured_triggers.induct) auto

lemma download_links_append [simp]:
  "download_links (xs @ ys) = download_links xs @ download_links ys"
  by (induction xs rule: download_links.induct) auto




lemma resolution_next_append: "resolution_next xs \<Longrightarrow> resolution_next (xs @ ys)"
  by (induction xs rule: resolution_next.induct) auto

lemma triggers_resolve_append:
  "triggers_resolve xs \<Longrightarrow> triggers_resolve ys \<Longrightarrow> triggers_resolve (xs @ ys)"
  by (induction xs rule: triggers_resolve.induct) (auto simp: resolution_next_append)

lemma neutral_resolves: "neutral e \<Longrightarrow> triggers_resolve [e]"
  by (cases e) (auto simp: neutral_def)

lemma log_event_fields [simp]:
  "monitor_task (log_event e s) = monitor_task s"
  "monitor_last_links (log_event e s) = monitor_last_links s"
  "monitor_seen_topics (log_event e s) = monitor_seen_topics s"
  "monitor_command_chat (log_event e s) = monitor_command_chat s"
  "command_chat_cache (log_event e s) = command_chat_cache s"
  "trace (log_event e s) = e # trace s"
  "now (log_event e s) = Suc (now s)"
  by (simp_all add: log_event_def now_def)

lemma stretchI: "trace s' = new @ trace s \<Longrightarrow> stretch s s' = new"
  by (simp add: stretch_def)

lemma stretch_refl [simp]: "stretch s s = []"
  by (simp add: stretch_def)

lemma always_configured_cong:
  "monitor_command_chat s' = monitor_command_chat s \<Longrightarrow>
   always_configured ev s' = always_configured ev s"
  by (simp add: always_configured_def)

lemma run_relI:
  assumes "monitor_task s' = monitor_task s"
    and "monitor_command_chat s' = monitor_command_chat s"
    and "monitor_seen_topics s \<subseteq> monitor_seen_topics s'"
    and "trace s' = new @ trace s"
    and "monitor_last_links s' = monitor_last_links s \<union> delivered_links new"
    and "delivered_links new \<subseteq> set (download_links new)"
    and "triggered_links new \<subseteq> monitor_last_links s'"
    and "always_configured ev s \<Longrightarrow> unconfigured_triggers new = {} \<and> triggers_resolve (rev new)"
    and "inner \<Longrightarrow> EvSleep \<notin> set new \<and> EvCrawl \<notin> set new"
  shows "run_rel ev inner s s'"
proof -
  have "stretch s s' = new"
    using assms(4) by (rule stretchI)
  then show ?thesis
    unfolding run_rel_def using assms by simp
qed

lemma run_rel_refl: "run_rel ev inner s s"
  by (rule run_relI [where new = "[]"]) simp_all

lemma run_rel_weaken: "run_rel ev True s s' \<Longrightarrow> run_rel ev inner s s'"
  unfolding run_rel_def by blast

lemma run_rel_trans:
  assumes "run_rel ev inner s s1" and "run_rel ev inner s1 s2"
  shows "run_rel ev inner s s2"
proof -
  let ?n1 = "stretch s s1" and ?n2 = "stretch s1 s2"
  have f1: "monitor_task s1 = monitor_task s" "monitor_command_chat s1 = monitor_command_chat s"
    "monitor_seen_topics s \<subseteq> monitor_seen_topics s1"
    and n1: "trace s1 = ?n1 @ trace s"
    "monitor_last_links s1 = monitor_last_links s \<union> delivered_links ?n1"
    "delivered_links ?n1 \<subseteq> set (download_links ?n1)"
    "triggered_links ?n1 \<subseteq> monitor_last_links s1"
    "always_configured ev s \<longrightarrow> unconfigured_triggers ?n1 = {} \<and> triggers_resolve (rev ?n1)"
    "inner \<longrightarrow> EvSleep \<notin> set ?n1 \<and> EvCrawl \<notin> set ?n1"
    using assms(1) unfolding run_rel_def by blast+
  have f2: "monitor_task s2 = monitor_task s1" "monitor_command_chat s2 = monitor_command_chat s1"
    "monitor_seen_topics s1 \<subseteq> monitor_seen_topics s2"
    and n2: "trace s2 = ?n2 @ trace s1"
    "monitor_last_links s2 = monitor_last_links s1 \<union> delivered_links ?n2"
    "delivered_links ?n2 \<subseteq> set (download_links ?n2)"
    "triggered_links ?n2 \<subseteq> monitor_last_links s2"
    "always_configured ev s1 \<longrightarrow> unconfigured_triggers ?n2 = {} \<and> triggers_resolve (rev ?n2)"
    "inner \<longrightarrow> EvSleep \<notin> set ?n2 \<and> EvCrawl \<notin> set ?n2"
    using assms(2) unfolding run_rel_def by blast+
  have ac: "always_configured ev s1 = always_configured ev s"
    using f1(2) by (rule always_configured_cong)
  show ?thesis
  proof (rule run_relI [where new = "?n2 @ ?n1"])
    show "trace s2 = (?n2 @ ?n1) @ trace s"
      using n1(1) n2(1) by simp
    show "monitor_last_links s2 = monitor_last_links s \<union> delivered_links (?n2 @ ?n1)"
      using n1(2) n2(2) by auto
    show "delivered_links (?n2 @ ?n1) \<subseteq> set (download_links (?n2 @ ?n1))"
      using n1(3) n2(3) by auto
    show "triggered_links (?n2 @ ?n1) \<subseteq> monitor_last_links s2"
      using n1(4) n2(2,4) by auto
    show "unconfigured_triggers (?n2 @ ?n1) = {} \<and> triggers_resolve (rev (?n2 @ ?n1))"
      if "always_configured ev s"
      using that n1(5) n2(5) ac by (simp add: triggers_resolve_append)
    show "EvSleep \<notin> set (?n2 @ ?n1) \<and> EvCrawl \<notin> set (?n2 @ ?n1)" if inner
      using that n1(6) n2(6) by simp
  qed (use f1 f2 in auto)
qed

lemma run_rel_log:
  assumes "neutral e" and "inner \<Longrightarrow> e \<noteq> EvSleep \<and> e \<noteq> EvCrawl"
  shows "run_rel ev inner s (log_event e s)"
  by (rule run_relI [where new = "[e]"])
     (use assms neutral_resolves [OF assms(1)] in \<open>auto simp: neutral_def\<close>)

lemma run_rel_cache: "run_rel ev inner s (s\<lparr>command_chat_cache := x\<rparr>)"
  by (rule run_relI [where new = "[]"]) simp_all

lemma run_rel_seen:
  "run_rel ev inner s (s\<lparr>monitor_seen_topics := insert u (monitor_seen_topics s)\<rparr>)"
  by (rule run_relI [where new = "[]"]) auto

lemma neutral_simps [simp]:
  "neutral EvCrawl" "neutral (EvDownload l)" "neutral (EvSend c l fn False)"
  "neutral (EvGetChat r)" "neutral (EvMirrorLeech m)" "neutral EvSleep"
  by (simp_all add: neutral_def)

lemma truthy_py_or [simp]: "truthy_ref (py_or a b) \<longleftrightarrow> truthy_ref a \<or> truthy_ref b"
  by (simp add: py_or_def)

lemma untruthy_not_configured:
  "\<not> truthy_ref (trigger_chat_ref (config_dict ev n) s) \<Longrightarrow> \<not> always_configured ev s"
  by (auto simp: trigger_chat_ref_def always_configured_def)

lemma resolve_rel:
  "resolve_command_chat ev ref s = (r, s') \<Longrightarrow> run_rel ev inner s s'"
  unfolding resolve_command_chat_def Let_def
  by (auto split: option.splits sum.splits if_splits prod.splits
      intro!: run_rel_refl run_rel_log run_rel_trans [OF run_rel_log run_rel_cache])

lemma resolve_shape:
  assumes "resolve_command_chat ev ref s = (r, s')"
  shows "monitor_task s' = monitor_task s \<and> monitor_command_chat s' = monitor_command_chat s
       \<and> monitor_seen_topics s' = monitor_seen_topics s
       \<and> monitor_last_links s' = monitor_last_links s
       \<and> ((trace s' = trace s \<and> (\<exists>v. r = Inr (Some v)))
            \<or> trace s' = EvGetChat ref # trace s)"
  using assms unfolding resolve_command_chat_def Let_def
  by (auto split: option.splits sum.splits if_splits prod.splits)

lemma trigger_shape:
  assumes "trigger_qbleech ev l title s = (r, s')"
  shows "monitor_task s' = monitor_task s \<and> monitor_command_chat s' = monitor_command_chat s
       \<and> monitor_seen_topics s' = monitor_seen_topics s
       \<and> monitor_last_links s' = monitor_last_links s
       \<and> (\<exists>mid. trace s' = mid @ EvTrigger l # trace s
              \<and> (if truthy_ref (trigger_chat_ref (config_dict ev (now s)) s)
                  then (\<exists>ref m. mid = [EvGetChat ref] \<or> mid = [EvMirrorLeech m, EvGetChat ref]
                                \<or> mid = [EvMirrorLeech m])
                  else mid = [EvNotConfigured l]))"
proof -
  let ?s0 = "log_event (EvTrigger l) s"
  let ?ref = "trigger_chat_ref (config_dict ev (now s)) s"
  show ?thesis
  proof (cases "truthy_ref ?ref")
    case False
    then have "s' = log_event (EvNotConfigured l) ?s0"
      using assms by (simp add: trigger_qbleech_def Let_def)
    with False show ?thesis by simp
  next
    case True
    then obtain ref where ref: "?ref = Some ref"
      by (cases ?ref) auto
    obtain rr s1 where res: "resolve_command_chat ev ref ?s0 = (rr, s1)"
      by (cases "resolve_command_chat ev ref ?s0")
    note sh = resolve_shape [OF res]
    show ?thesis
    proof (cases "\<exists>ch. rr = Inr (Some ch)")
      case False
      then have s': "s' = s1"
        using assms True ref res
        by (auto simp: trigger_qbleech_def Let_def split: sum.splits option.splits)
      from False sh have "trace s1 = EvGetChat ref # trace ?s0"
        by auto
      with s' sh True show ?thesis
        by auto
    next
      case True2: True
      then obtain ch where ch: "rr = Inr (Some ch)" ..
      obtain m s2 where s2: "s' = log_event (EvMirrorLeech m) s2" "trace s2 = trace s1"
        "monitor_task s2 = monitor_task s1" "monitor_command_chat s2 = monitor_command_chat s1"
        "monitor_seen_topics s2 = monitor_seen_topics s1"
        "monitor_last_links s2 = monitor_last_links s1"
        using assms True ref res ch
        by (auto simp: trigger_qbleech_def Let_def split: option.splits if_splits)
      from sh have "trace s1 = trace ?s0 \<or> trace s1 = EvGetChat ref # trace ?s0"
        by auto
      then show ?thesis
        using s2 sh True by auto
    qed
  qed
qed

lemma trigger_rel:
  assumes "l \<in> monitor_last_links s" and "trigger_qbleech ev l title s = (r, s')"
  shows "run_rel ev inner s s'"
proof -
  from trigger_shape [OF assms(2)] obtain mid where
    frame: "monitor_task s' = monitor_task s" "monitor_command_chat s' = monitor_command_chat s"
      "monitor_seen_topics s' = monitor_seen_topics s"
      "monitor_last_links s' = monitor_last_links s"
    and tr: "trace s' = mid @ EvTrigger l # trace s"
    and mid: "if truthy_ref (trigger_chat_ref (config_dict ev (now s)) s)
              then (\<exists>ref m. mid = [EvGetChat ref] \<or> mid = [EvMirrorLeech m, EvGetChat ref]
                            \<or> mid = [EvMirrorLeech m])
              else mid = [EvNotConfigured l]"
    by blast
  show ?thesis
  proof (rule run_relI [where new = "mid @ [EvTrigger l]"])
    show "trace s' = (mid @ [EvTrigger l]) @ trace s"
      using tr by simp
    show "unconfigured_triggers (mid @ [EvTrigger l]) = {}
          \<and> triggers_resolve (rev (mid @ [EvTrigger l]))"
      if "always_configured ev s"
    proof -
      have "truthy_ref (trigger_chat_ref (config_dict ev (now s)) s)"
        using that untruthy_not_configured by blast
      with mid show ?thesis by auto
    qed
  qed (use frame assms(1) mid in \<open>auto split: if_splits\<close>)
qed



lemma process_file_cases [consumes 1, case_names no_payload send_failed sent]:
  assumes "process_file ev c f s = (r, s')"
  obtains
    (no_payload) "\<not> delivered_ok ev c f (now s)"
      "s' = log_event (EvDownload (flink f)) s"
      "r = (case download_torrent ev (now s) (flink f) of Inl e \<Rightarrow> Some e | Inr x \<Rightarrow> None)"
      "\<forall>b. download_torrent ev (now s) (flink f) \<noteq> Inr (Some b)"
  | (send_failed) b e where "\<not> delivered_ok ev c f (now s)"
      "download_torrent ev (now s) (flink f) = Inr (Some b)"
      "send_document ev (Suc (now s)) c b (sanitize_filename (ftitle f)) (caption_of f) = Some e"
      "s' = log_event (EvSend c (flink f) (sanitize_filename (ftitle f)) False)
              (log_event (EvDownload (flink f)) s)"
      "r = (if e = RPCError then None else Some e)"
  | (sent) "delivered_ok ev c f (now s)"
      "trigger_qbleech ev (flink f) (ftitle f)
         ((log_event (EvSend c (flink f) (sanitize_filename (ftitle f)) True)
             (log_event (EvDownload (flink f)) s))
          \<lparr>monitor_last_links := insert (flink f) (monitor_last_links s)\<rparr>) = (r, s')"
proof (cases "download_torrent ev (now s) (flink f)")
  case (Inl e)
  then show ?thesis
    using assms no_payload by (simp add: process_file_def delivered_ok_def Let_def)
next
  case (Inr bo)
  show ?thesis
  proof (cases bo)
    case None
    then show ?thesis
      using assms Inr no_payload by (simp add: process_file_def delivered_ok_def Let_def)
  next
    case (Some b)
    show ?thesis
    proof (cases "send_document ev (Suc (now s)) c b (sanitize_filename (ftitle f)) (caption_of f)")
      case None
      then show ?thesis
        using assms Inr Some sent by (simp add: process_file_def delivered_ok_def Let_def)
    next
      case (Some e)
      then show ?thesis
        using assms Inr \<open>bo = Some b\<close> send_failed [of b e]
        by (simp add: process_file_def delivered_ok_def Let_def split: if_splits)
    qed
  qed
qed

lemma run_rel_delivered:
  "run_rel ev inner s
     ((log_event (EvSend c l fn True) (log_event (EvDownload l) s))
        \<lparr>monitor_last_links := insert l (monitor_last_links s)\<rparr>)"
  by (rule run_relI [where new = "[EvSend c l fn True, EvDownload l]"]) simp_all

lemma process_file_rel:
  assumes "process_file ev c f s = (r, s')"
  shows "run_rel ev inner s s'"
  using assms
proof (cases rule: process_file_cases)
  case no_payload
  then show ?thesis by (simp add: run_rel_log)
next
  case (send_failed b e)
  have "run_rel ev inner s (log_event (EvDownload (flink f)) s)"
    by (simp add: run_rel_log)
  moreover have "run_rel ev inner (log_event (EvDownload (flink f)) s) s'"
    unfolding send_failed(4) by (simp add: run_rel_log)
  ultimately show ?thesis by (rule run_rel_trans)
next
  case sent
  have "run_rel ev inner
          ((log_event (EvSend c (flink f) (sanitize_filename (ftitle f)) True)
             (log_event (EvDownload (flink f)) s))
          \<lparr>monitor_last_links := insert (flink f) (monitor_last_links s)\<rparr>) s'"
    by (rule trigger_rel [OF _ sent(2)]) simp
  with run_rel_delivered show ?thesis by (rule run_rel_trans)
qed


lemma process_files_rel:
  "process_files ev c fs s = (r, s') \<Longrightarrow> run_rel ev inner s s'"
proof (induction fs arbitrary: s)
  case Nil
  then show ?case by (simp add: run_rel_refl)
next
  case (Cons f fs)
  obtain r1 s1 where pf: "process_file ev c f s = (r1, s1)"
    by (cases "process_file ev c f s")
  have r1: "run_rel ev inner s s1"
    using pf by (rule process_file_rel)
  show ?case
  proof (cases r1)
    case None
    then have "process_files ev c fs s1 = (r, s')"
      using Cons.prems pf by simp
    then have "run_rel ev inner s1 s'" by (rule Cons.IH)
    with r1 show ?thesis by (rule run_rel_trans)
  next
    case (Some e)
    then have "s' = s1" using Cons.prems pf by simp
    with r1 show ?thesis by simp
  qed
qed


lemma process_topic_cases [consumes 1, case_names skip left marked]:
  assumes "process_topic ev c t s = (r, s')"
  obtains
    (skip) "skipped s t" "r = None" "s' = s"
  | (left) e where "\<not> skipped s t" "r = Some e"
      "process_files ev c (new_files s t) s = (Some e, s')"
  | (marked) s1 where "\<not> skipped s t" "r = None"
      "process_files ev c (new_files s t) s = (None, s1)"
      "s' = s1\<lparr>monitor_seen_topics := insert (topic_url t) (monitor_seen_topics s1)\<rparr>"
proof (cases "skipped s t")
  case True
  then have "r = None" "s' = s"
    using assms by (simp_all add: process_topic_def)
  with True show ?thesis by (rule skip)
next
  case False
  obtain r1 s1 where pf: "process_files ev c (new_files s t) s = (r1, s1)"
    by (cases "process_files ev c (new_files s t) s")
  show ?thesis
  proof (cases r1)
    case None
    then have "r = None"
      "s' = s1\<lparr>monitor_seen_topics := insert (topic_url t) (monitor_seen_topics s1)\<rparr>"
      using assms False pf by (simp_all add: process_topic_def)
    with False pf None show ?thesis by (intro marked [of s1]) simp_all
  next
    case (Some e)
    then have "r = Some e" "s' = s1"
      using assms False pf by (simp_all add: process_topic_def)
    with False pf Some show ?thesis by (intro left [of e]) simp_all
  qed
qed

lemma process_topic_rel:
  assumes "process_topic ev c t s = (r, s')"
  shows "run_rel ev inner s s'"
  using assms
proof (cases rule: process_topic_cases)
  case skip
  then show ?thesis by (simp add: run_rel_refl)
next
  case (left e)
  then show ?thesis by (simp add: process_files_rel)
next
  case (marked s1)
  have "run_rel ev inner s s1"
    using marked(3) by (rule process_files_rel)
  moreover have "run_rel ev inner s1 s'"
    unfolding marked(4) by (rule run_rel_seen)
  ultimately show ?thesis by (rule run_rel_trans)
qed


lemma process_topics_rel:
  "process_topics ev c ts s = (r, s') \<Longrightarrow> run_rel ev inner s s'"
proof (induction ts arbitrary: s)
  case Nil
  then show ?case by (simp add: run_rel_refl)
next
  case (Cons t ts)
  obtain r1 s1 where pt: "process_topic ev c t s = (r1, s1)"
    by (cases "process_topic ev c t s")
  have r1: "run_rel ev inner s s1"
    using pt by (rule process_topic_rel)
  show ?case
  proof (cases r1)
    case None
    then have "process_topics ev c ts s1 = (r, s')"
      using Cons.prems pt by simp
    then have "run_rel ev inner s1 s'" by (rule Cons.IH)
    with r1 show ?thesis by (rule run_rel_trans)
  next
    case (Some e)
    then have "s' = s1" using Cons.prems pt by simp
    with r1 show ?thesis by simp
  qed
qed



lemma poll_cycle_cases [consumes 1, case_names crawl_raised topics_left slept]:
  assumes "poll_cycle ev c s = (r, s')"
  obtains
    (crawl_raised) e where "cycle_torrents ev (now s) = Inl e" "r = Some e"
      "s' = log_event EvCrawl s"
  | (topics_left) ts e where "cycle_torrents ev (now s) = Inr ts" "r = Some e"
      "process_topics ev c ts (log_event EvCrawl s) = (Some e, s')"
  | (slept) ts s2 where "cycle_torrents ev (now s) = Inr ts"
      "process_topics ev c ts (log_event EvCrawl s) = (None, s2)"
      "r = sleep ev (now s2)" "s' = log_event EvSleep s2"
proof (cases "cycle_torrents ev (now s)")
  case (Inl e)
  then show ?thesis
    using assms crawl_raised by (simp add: poll_cycle_def Let_def)
next
  case (Inr ts)
  obtain r2 s2 where pt: "process_topics ev c ts (log_event EvCrawl s) = (r2, s2)"
    by (cases "process_topics ev c ts (log_event EvCrawl s)")
  show ?thesis
  proof (cases r2)
    case None
    then show ?thesis
      using assms Inr pt slept [of ts s2] by (simp add: poll_cycle_def Let_def)
  next
    case (Some e)
    then show ?thesis
      using assms Inr pt topics_left [of ts e] by (simp add: poll_cycle_def Let_def)
  qed
qed

lemma poll_cycle_rel:
  assumes "poll_cycle ev c s = (r, s')"
  shows "run_rel ev False s s'"
proof -
  have r1: "run_rel ev False s (log_event EvCrawl s)"
    by (simp add: run_rel_log)
  from assms show ?thesis
  proof (cases rule: poll_cycle_cases)
    case (crawl_raised e)
    with r1 show ?thesis by simp
  next
    case (topics_left ts e)
    from r1 process_topics_rel [OF topics_left(3)] show ?thesis
      by (rule run_rel_trans)
  next
    case (slept ts s2)
    have "run_rel ev False s s2"
      using r1 process_topics_rel [OF slept(2)] by (rule run_rel_trans)
    moreover have "run_rel ev False s2 s'"
      unfolding slept(4) by (simp add: run_rel_log)
    ultimately show ?thesis by (rule run_rel_trans)
  qed
qed


lemma monitor_loop_rel:
  "monitor_loop ev c n s = (r, s') \<Longrightarrow> run_rel ev False s s'"
proof (induction n arbitrary: s)
  case 0
  then show ?case by (simp add: run_rel_refl)
next
  case (Suc n)
  obtain r1 s1 where pc: "poll_cycle ev c s = (r1, s1)"
    by (cases "poll_cycle ev c s")
  have r1: "run_rel ev False s s1"
    using pc by (rule poll_cycle_rel)
  show ?case
  proof (cases r1)
    case None
    then have "monitor_loop ev c n s1 = (r, s')"
      using Suc.prems pc by simp
    then have "run_rel ev False s1 s'" by (rule Suc.IH)
    with r1 show ?thesis by (rule run_rel_trans)
  next
    case (Some e)
    then have "s' = s1" using Suc.prems pc by simp
    with r1 show ?thesis by simp
  qed
qed


subsection \<open>The concrete inputs evaluated\<close>

lemmas model_defs =
  start_monitor_def stop_monitor_def tamilblasters_monitor_def cancelled_before_first_step_def
  poll_cycle_def cycle_torrents_def crawl_tbl_def
  crawl_tbl_sync_def visited_links_def fromkeys_def full_url_of_def file_links_of_def
  file_of_tag_def process_topic_def skipped_def new_files_def process_file_def
  trigger_qbleech_def trigger_chat_ref_def resolve_command_chat_def auto_command_message_def
  py_or_def is_Exception_def log_event_def now_def initial_state_def MAX_TOPICS_def BASE_URL_def
  List.map_filter_def Let_def

lemmas demo_defs =
  demo_text_def demo_site_def demo_cfg_def demo_env_def demo_file_def demo_topic_def
  demo_stub_def

lemma demo_filename: "sanitize_filename ''a b'' = ''a_b.torrent''"
  by (simp add: sanitize_filename_def strip_underscores_def safe_char_def)


lemma started_state_eq:
  "started_state =
     \<lparr>monitor_task = Some \<lparr>task_upload_chat = ChatId (- 1001), task_done = False, task_cancel_requested = False\<rparr>,
      monitor_last_links = {}, monitor_seen_topics = {},
      monitor_command_chat = Some (ChatId 42), command_chat_cache = None, trace = []\<rparr>"
  by (simp add: started_state_def model_defs demo_defs)

lemma first_run_stopped:
  "tamilblasters_monitor demo_env (ChatId (- 1001)) 1 started_state
     = (Some CancelledError, stopped_state)"
  unfolding stopped_state_def started_state_eq
  by (simp add: model_defs demo_defs)

lemma stopped_state_eq:
  "stopped_state =
     \<lparr>monitor_task = None, monitor_last_links = {''L1''},
      monitor_seen_topics = {''https://www.1tamilmv.land//forums/topic/1''},
      monitor_command_chat = Some (ChatId 42),
      command_chat_cache = Some (ChatId 42, demo_stub),
      trace = [EvSleep,
               EvMirrorLeech \<lparr>am_chat = demo_stub, am_text = ''/qbleech L1'',
                                am_title = ''a b'', am_from_user = 1\<rparr>,
               EvGetChat (ChatId 42), EvTrigger ''L1'',
               EvSend (ChatId (- 1001)) ''L1'' ''a_b.torrent'' True, EvDownload ''L1'',
               EvCrawl]\<rparr>"
  unfolding stopped_state_def started_state_eq
  by (simp add: model_defs demo_defs demo_filename)



lemma failed_cycle_state_eq:
  "failed_cycle_state =
     \<lparr>monitor_task = Some \<lparr>task_upload_chat = ChatId (- 1001), task_done = False, task_cancel_requested = False\<rparr>,
      monitor_last_links = {},
      monitor_seen_topics = {''https://www.1tamilmv.land//forums/topic/1''},
      monitor_command_chat = Some (ChatId 42), command_chat_cache = None,
      trace = [EvSleep, EvSend (ChatId (- 1001)) ''L1'' ''a_b.torrent'' False,
               EvDownload ''L1'', EvCrawl]\<rparr>"
  unfolding failed_cycle_state_def started_state_eq
  by (simp add: model_defs demo_defs env_send_rpc_def demo_filename)

lemma failed_cycle:
  "poll_cycle env_send_rpc (ChatId (- 1001)) started_state = (None, failed_cycle_state)"
  unfolding failed_cycle_state_eq unfolding started_state_eq
  by (simp add: model_defs demo_defs env_send_rpc_def demo_filename)


subsection \<open>The run as a whole\<close>

lemma stretch_task [simp]: "stretch s (s'\<lparr>monitor_task := x\<rparr>) = stretch s s'"
  by (simp add: stretch_def)

lemma monitor_run_rel:
  assumes "tamilblasters_monitor ev c n s = (r, s')"
  shows "monitor_command_chat s' = monitor_command_chat s
     \<and> monitor_seen_topics s \<subseteq> monitor_seen_topics s'
     \<and> trace s' = stretch s s' @ trace s
     \<and> monitor_last_links s' = monitor_last_links s \<union> delivered_links (stretch s s')
     \<and> delivered_links (stretch s s') \<subseteq> set (download_links (stretch s s'))
     \<and> triggered_links (stretch s s') \<subseteq> monitor_last_links s'
     \<and> (always_configured ev s \<longrightarrow>
           unconfigured_triggers (stretch s s') = {}
           \<and> triggers_resolve (rev (stretch s s')))"
proof (cases "cancelled_before_first_step s")
  case True
  then have "s' = s\<lparr>monitor_task := map_option (\<lambda>t. t\<lparr>task_done := True\<rparr>) (monitor_task s)\<rparr>"
    using assms by (simp add: tamilblasters_monitor_def)
  then show ?thesis by simp
next
  case False
  obtain r1 s1 where ml: "monitor_loop ev c n s = (r1, s1)"
    by (cases "monitor_loop ev c n s")
  have rel: "run_rel ev False s s1"
    using ml by (rule monitor_loop_rel)
  have "s' = s1 \<or> s' = s1\<lparr>monitor_task := None\<rparr>"
    using assms ml False by (auto simp: tamilblasters_monitor_def split: option.splits)
  then show ?thesis
    using rel unfolding run_rel_def by auto
qed





subsection \<open>The per-item pipeline\<close>



lemma failed_send_state:
  "process_file env_send_rpc (ChatId (- 1001)) demo_file started_state =
     (None, started_state
        \<lparr>trace := [EvSend (ChatId (- 1001)) ''L1'' ''a_b.torrent'' False, EvDownload ''L1'']\<rparr>)"
  unfolding started_state_eq
  by (simp add: model_defs demo_defs env_send_rpc_def demo_filename)





subsection \<open>Starting while a run is active\<close>

text \<open>
  C2, as the code has it. A start request that arrives while the task handle holds a task
  that is not done changes nothing: the state it returns is the state it was given (the
  cache, the recorded command chat, the task handle and the dedup sets included, and no
  call is made). Its reply is "already running" when \<open>AUTO_TBL_CHANNEL\<close> is
  configured, and "not configured" otherwise, since line 253 is checked before the task.
\<close>

theorem start_while_running:
  assumes "monitor_task s = Some t" and "\<not> task_done t"
  shows "start_monitor cfg cid s =
           (if truthy_ref (auto_tbl_channel cfg) then AlreadyRunning else NotConfigured, s)"
  using assms by (cases "auto_tbl_channel cfg") (simp_all add: start_monitor_def)

theorem start_while_running_witness:
  "monitor_task started_state = Some \<lparr>task_upload_chat = ChatId (- 1001), task_done = False, task_cancel_requested = False\<rparr>
   \<and> \<not> task_done \<lparr>task_upload_chat = ChatId (- 1001), task_done = False, task_cancel_requested = False\<rparr>
   \<and> start_monitor demo_cfg 7 started_state = (AlreadyRunning, started_state)"
proof -
  have running: "monitor_task started_state
                   = Some \<lparr>task_upload_chat = ChatId (- 1001), task_done = False, task_cancel_requested = False\<rparr>"
    by (simp add: started_state_eq)
  have live: "\<not> task_done \<lparr>task_upload_chat = ChatId (- 1001), task_done = False, task_cancel_requested = False\<rparr>"
    by simp
  from start_while_running [OF running live, of demo_cfg 7] running live
  show ?thesis
    by (simp add: demo_cfg_def)
qed

text \<open>
  C2 as the specification words it, every start request made while a run is active is
  answered "already running", fails when \<open>AUTO_TBL_CHANNEL\<close> has been removed from the
  configuration since the run was started: the reply is "not configured".
\<close>

theorem start_while_running_unconfigured:
  "monitor_task started_state = Some \<lparr>task_upload_chat = ChatId (- 1001), task_done = False, task_cancel_requested = False\<rparr>
   \<and> start_monitor \<lparr>auto_tbl_channel = None, auto_tbl_command_chat = None\<rparr> 42 started_state
       = (NotConfigured, started_state)
   \<and> NotConfigured \<noteq> AlreadyRunning"
  by (simp add: started_state_eq start_monitor_def)

subsection \<open>What ends the loop\<close>























subsection \<open>The dedup sets across runs\<close>

text \<open>
  C4, as the code has it. The two sets are empty when the module is loaded, and no start
  request changes them; a run only adds to them. So the first cycle of a run observes
  the sets as the run before it left them, and empty sets only when no earlier run of
  the process added to them.
\<close>

theorem dedup_store_survives_restart:
  "monitor_last_links initial_state = {} \<and> monitor_seen_topics initial_state = {}
   \<and> monitor_last_links (snd (start_monitor cfg cid s)) = monitor_last_links s
   \<and> monitor_seen_topics (snd (start_monitor cfg cid s)) = monitor_seen_topics s
   \<and> monitor_last_links s \<subseteq> monitor_last_links (snd (tamilblasters_monitor ev c n s))
   \<and> monitor_seen_topics s \<subseteq> monitor_seen_topics (snd (tamilblasters_monitor ev c n s))"
proof -
  have start: "monitor_last_links (snd (start_monitor cfg cid s)) = monitor_last_links s
     \<and> monitor_seen_topics (snd (start_monitor cfg cid s)) = monitor_seen_topics s"
    by (cases "auto_tbl_channel cfg") (simp_all add: start_monitor_def)
  obtain r s' where run: "tamilblasters_monitor ev c n s = (r, s')"
    by (cases "tamilblasters_monitor ev c n s")
  have "monitor_last_links s \<subseteq> monitor_last_links s'
      \<and> monitor_seen_topics s \<subseteq> monitor_seen_topics s'"
    using monitor_run_rel [OF run] by auto
  with start run show ?thesis
    by (simp add: initial_state_def)
qed

text \<open>
  C4 as the specification words it, every start begins with empty sets, fails: a first
  run delivers the file \<open>L1\<close> and is stopped; the start request that follows is
  answered "started", and the sets of the new run hold the link and the topic.
\<close>

theorem restart_keeps_dedup_store:
  "started_state = snd (start_monitor demo_cfg 42 initial_state)
   \<and> tamilblasters_monitor demo_env (ChatId (- 1001)) 1 started_state
       = (Some CancelledError, stopped_state)
   \<and> fst (start_monitor demo_cfg 42 stopped_state) = Started
   \<and> monitor_last_links (snd (start_monitor demo_cfg 42 stopped_state)) = {''L1''}
   \<and> monitor_seen_topics (snd (start_monitor demo_cfg 42 stopped_state))
       = {''https://www.1tamilmv.land//forums/topic/1''}"
proof -
  have "fst (start_monitor demo_cfg 42 stopped_state) = Started
   \<and> monitor_last_links (snd (start_monitor demo_cfg 42 stopped_state)) = {''L1''}
   \<and> monitor_seen_topics (snd (start_monitor demo_cfg 42 stopped_state))
       = {''https://www.1tamilmv.land//forums/topic/1''}"
    unfolding stopped_state_eq by (simp add: start_monitor_def demo_cfg_def)
  then show ?thesis
    using first_run_stopped by (simp add: started_state_def)
qed

subsection \<open>Marking a topic as seen\<close>







lemma stretch_seen_topics [simp]: "stretch s (s'\<lparr>monitor_seen_topics := x\<rparr>) = stretch s s'"
  by (simp add: stretch_def)






subsection \<open>Skipping a topic\<close>

text \<open>
  C6. A topic whose URL is in \<open>_monitor_seen_topics\<close> and all of whose files have
  their link in \<open>_monitor_last_links\<close> is passed over: the loop body returns at once,
  in the state it was entered in. Nothing is written to the trace (no download, no send,
  no trigger, no resolution) and no global variable is assigned.
\<close>

theorem seen_topic_without_new_files_is_skipped:
  assumes "topic_url t \<in> monitor_seen_topics s"
    and "\<forall>f\<in>set (links t). flink f \<in> monitor_last_links s"
  shows "process_topic ev c t s = (None, s)"
proof -
  have "new_files s t = []"
    using assms(2) by (simp add: new_files_def)
  then have "skipped s t"
    using assms(1) by (simp add: skipped_def)
  then show ?thesis
    by (simp add: process_topic_def)
qed

theorem seen_topic_without_new_files_is_skipped_witness:
  "topic_url demo_topic \<in> monitor_seen_topics stopped_state
   \<and> list_all (\<lambda>f. flink f \<in> monitor_last_links stopped_state) (links demo_topic)
   \<and> process_topic env_send_fault (ChatId (- 1001)) demo_topic stopped_state
       = (None, stopped_state)"
proof -
  have seen: "topic_url demo_topic \<in> monitor_seen_topics stopped_state"
    by (simp add: stopped_state_eq demo_topic_def)
  have old: "\<forall>f\<in>set (links demo_topic). flink f \<in> monitor_last_links stopped_state"
    by (simp add: stopped_state_eq demo_topic_def demo_file_def)
  from seen_topic_without_new_files_is_skipped [OF seen old, of env_send_fault "ChatId (- 1001)"]
  show ?thesis
    using seen old by (simp add: list_all_iff)
qed

subsection \<open>The command-chat cache\<close>

text \<open>
  C7. The cache is \<open>None\<close> or one pair. A resolution of the cached key returns the
  cached stub in the unchanged state: \<open>get_chat\<close> is not called. A resolution of any
  other key (or with an empty cache) calls \<open>get_chat\<close>: a result is returned and
  stored as the one entry, in place of whatever was there; an exception leaves the cache
  as it was, and the trigger that asked for the resolution ends without calling
  \<open>_mirror_leech\<close> (returning normally on an \<open>RPCError\<close>). A start that is
  answered "started" leaves the cache empty, so the first resolution of the new run, of
  whatever key, calls \<open>get_chat\<close>.
\<close>

theorem chat_cache_is_a_one_entry_memo:
  "(command_chat_cache s = Some (ref, v) \<longrightarrow>
        resolve_command_chat ev ref s = (Inr (Some v), s))
   \<and> ((\<forall>v. command_chat_cache s \<noteq> Some (ref, v)) \<longrightarrow>
        (case get_chat ev (now s) ref of
           Inr ch \<Rightarrow>
             resolve_command_chat ev ref s =
               (Inr (Some \<lparr>stub_id = chat_id ch,
                             stub_type = Some (case chat_type ch of
                                                 Some t \<Rightarrow> t
                                               | None \<Rightarrow> SUPERGROUP)\<rparr>),
                (log_event (EvGetChat ref) s)
                  \<lparr>command_chat_cache :=
                     Some (ref, \<lparr>stub_id = chat_id ch,
                                  stub_type = Some (case chat_type ch of
                                                      Some t \<Rightarrow> t
                                                    | None \<Rightarrow> SUPERGROUP)\<rparr>)\<rparr>)
         | Inl e \<Rightarrow>
             resolve_command_chat ev ref s =
               (if e = RPCError then Inr None else Inl e, log_event (EvGetChat ref) s)))
   \<and> (trigger_chat_ref (config_dict ev (now s)) s = Some ref \<and> truthy_val ref
        \<and> (\<forall>v. command_chat_cache s \<noteq> Some (ref, v))
        \<and> get_chat ev (Suc (now s)) ref = Inl e \<longrightarrow>
        trigger_qbleech ev link title s =
          (if e = RPCError then None else Some e,
           log_event (EvGetChat ref) (log_event (EvTrigger link) s)))
   \<and> (start_monitor cfg cid s = (Started, s') \<longrightarrow>
        command_chat_cache s' = None
        \<and> trace (snd (resolve_command_chat ev ref s')) = EvGetChat ref # trace s')"
proof -
  have miss: "(case command_chat_cache st of
                 Some (k, v) \<Rightarrow> if k = ref then Some v else None
               | None \<Rightarrow> None) = None"
    if "\<forall>v. command_chat_cache st \<noteq> Some (ref, v)" for st
    using that by (auto split: option.splits)
  have hit: "resolve_command_chat ev ref s = (Inr (Some v), s)"
    if "command_chat_cache s = Some (ref, v)"
    using that by (simp add: resolve_command_chat_def)
  have called: "(case get_chat ev (now s) ref of
           Inr ch \<Rightarrow>
             resolve_command_chat ev ref s =
               (Inr (Some \<lparr>stub_id = chat_id ch,
                             stub_type = Some (case chat_type ch of
                                                 Some t \<Rightarrow> t
                                               | None \<Rightarrow> SUPERGROUP)\<rparr>),
                (log_event (EvGetChat ref) s)
                  \<lparr>command_chat_cache :=
                     Some (ref, \<lparr>stub_id = chat_id ch,
                                  stub_type = Some (case chat_type ch of
                                                      Some t \<Rightarrow> t
                                                    | None \<Rightarrow> SUPERGROUP)\<rparr>)\<rparr>)
         | Inl e \<Rightarrow>
             resolve_command_chat ev ref s =
               (if e = RPCError then Inr None else Inl e, log_event (EvGetChat ref) s))"
    if "\<forall>v. command_chat_cache s \<noteq> Some (ref, v)"
    using miss [OF that]
    by (simp add: resolve_command_chat_def Let_def split: sum.splits)
  have abandoned: "trigger_qbleech ev link title s =
          (if e = RPCError then None else Some e,
           log_event (EvGetChat ref) (log_event (EvTrigger link) s))"
    if "trigger_chat_ref (config_dict ev (now s)) s = Some ref" and "truthy_val ref"
      and "\<forall>v. command_chat_cache s \<noteq> Some (ref, v)"
      and "get_chat ev (Suc (now s)) ref = Inl e"
  proof -
    have "\<forall>v. command_chat_cache (log_event (EvTrigger link) s) \<noteq> Some (ref, v)"
      using that(3) by simp
    from miss [OF this] that(4)
    have "resolve_command_chat ev ref (log_event (EvTrigger link) s) =
            (if e = RPCError then Inr None else Inl e,
             log_event (EvGetChat ref) (log_event (EvTrigger link) s))"
      by (simp add: resolve_command_chat_def Let_def)
    with that(1,2) show ?thesis
      by (simp add: trigger_qbleech_def Let_def)
  qed
  have cleared: "command_chat_cache s' = None
        \<and> trace (snd (resolve_command_chat ev ref s')) = EvGetChat ref # trace s'"
    if "start_monitor cfg cid s = (Started, s')"
  proof -
    have none: "command_chat_cache s' = None"
      using that by (auto simp: start_monitor_def split: option.splits if_splits)
    then have "trace (snd (resolve_command_chat ev ref s')) = EvGetChat ref # trace s'"
      by (simp add: resolve_command_chat_def Let_def split: sum.splits)
    with none show ?thesis by simp
  qed
  from hit called abandoned cleared show ?thesis
    by blast
qed

theorem chat_cache_is_a_one_entry_memo_witness:
  "command_chat_cache stopped_state = Some (ChatId 42, demo_stub)
   \<and> resolve_command_chat env_tame (ChatId 42) stopped_state
       = (Inr (Some demo_stub), stopped_state)
   \<and> get_chat demo_env (now stopped_state) (ChatId 7)
       = Inr \<lparr>chat_id = 42, chat_type = Some PRIVATE\<rparr>
   \<and> command_chat_cache (snd (resolve_command_chat demo_env (ChatId 7) stopped_state))
       = Some (ChatId 7, demo_stub)
   \<and> get_chat env_tame (now stopped_state) (ChatId 7) = Inl RPCError
   \<and> resolve_command_chat env_tame (ChatId 7) stopped_state
       = (Inr None, log_event (EvGetChat (ChatId 7)) stopped_state)
   \<and> trigger_qbleech env_tame ''L1'' ''a b'' (stopped_state\<lparr>monitor_command_chat := Some (ChatId 7)\<rparr>)
       = (None, log_event (EvGetChat (ChatId 7))
                  (log_event (EvTrigger ''L1'')
                     (stopped_state\<lparr>monitor_command_chat := Some (ChatId 7)\<rparr>)))
   \<and> start_monitor demo_cfg 42 stopped_state
       = (Started, stopped_state
            \<lparr>monitor_command_chat := Some (ChatId 42), command_chat_cache := None,
             monitor_task := Some \<lparr>task_upload_chat = ChatId (- 1001), task_done = False, task_cancel_requested = False\<rparr>\<rparr>)"
proof -
  let ?s7 = "stopped_state\<lparr>monitor_command_chat := Some (ChatId 7)\<rparr>"
  have cached: "command_chat_cache stopped_state = Some (ChatId 42, demo_stub)"
    by (simp add: stopped_state_eq)
  have other: "\<forall>v. command_chat_cache stopped_state \<noteq> Some (ChatId 7, v)"
    by (simp add: stopped_state_eq)
  have ok: "get_chat demo_env (now stopped_state) (ChatId 7)
              = Inr \<lparr>chat_id = 42, chat_type = Some PRIVATE\<rparr>"
    by (simp add: demo_env_def)
  have err: "get_chat env_tame (now stopped_state) (ChatId 7) = Inl RPCError"
    by (simp add: env_tame_def)
  have ref7: "trigger_chat_ref (config_dict env_tame (now ?s7)) ?s7 = Some (ChatId 7)"
    "truthy_val (ChatId 7)" "\<forall>v. command_chat_cache ?s7 \<noteq> Some (ChatId 7, v)"
    "get_chat env_tame (Suc (now ?s7)) (ChatId 7) = Inl RPCError"
    by (simp_all add: trigger_chat_ref_def py_or_def stopped_state_eq env_tame_def)
  have start: "start_monitor demo_cfg 42 stopped_state
       = (Started, stopped_state
            \<lparr>monitor_command_chat := Some (ChatId 42), command_chat_cache := None,
             monitor_task := Some \<lparr>task_upload_chat = ChatId (- 1001), task_done = False, task_cancel_requested = False\<rparr>\<rparr>)"
    unfolding stopped_state_eq by (simp add: start_monitor_def demo_cfg_def py_or_def)
  from chat_cache_is_a_one_entry_memo
         [where s = stopped_state and ref = "ChatId 42" and v = demo_stub and ev = env_tame]
       chat_cache_is_a_one_entry_memo
         [where s = stopped_state and ref = "ChatId 7" and ev = demo_env]
       chat_cache_is_a_one_entry_memo
         [where s = stopped_state and ref = "ChatId 7" and ev = env_tame]
       chat_cache_is_a_one_entry_memo
         [where s = ?s7 and ref = "ChatId 7" and ev = env_tame and e = RPCError
            and link = "''L1''" and title = "''a b''"]
  show ?thesis
    using cached other ok err ref7 start
    by (simp add: demo_stub_def)
qed

subsection \<open>The window of the crawl\<close>

lemma fromkeys_snoc:
  "fromkeys (xs @ [x]) = (if x \<in> set (fromkeys xs) then fromkeys xs else fromkeys xs @ [x])"
  by (simp add: fromkeys_def)

lemma set_fromkeys [simp]: "set (fromkeys xs) = set xs"
  by (induction xs rule: rev_induct) (auto simp: fromkeys_snoc fromkeys_def)

lemma fromkeys_first_occurrence: "fromkeys xs = rev (remdups (rev xs))"
proof (induction xs rule: rev_induct)
  case Nil
  show ?case by (simp add: fromkeys_def)
next
  case (snoc x xs)
  then show ?case by (simp add: fromkeys_snoc)
qed

lemma distinct_fromkeys: "distinct (fromkeys xs)"
  by (simp add: fromkeys_first_occurrence)

lemma visited_links_bounded: "length (visited_links hrefs) \<le> MAX_TOPICS"
  by (simp add: visited_links_def)

lemma crawl_topics_window:
  "crawl_topics tx st us acc = Inr ts \<Longrightarrow>
     \<exists>new. ts = acc @ new \<and> subseq (map topic_url new) (map full_url_of us)"
proof (induction us arbitrary: acc)
  case Nil
  then show ?case by simp
next
  case (Cons u us)
  show ?case
  proof (cases "topic_page st (full_url_of u)")
    case (Inl e)
    then have "crawl_topics tx st us acc = Inr ts"
      using Cons.prems by (simp add: Let_def split: if_splits)
    then obtain new where "ts = acc @ new" "subseq (map topic_url new) (map full_url_of us)"
      using Cons.IH by blast
    then show ?thesis by auto
  next
    case (Inr tags)
    show ?thesis
    proof (cases "file_links_of tx tags")
      case Nil
      then have "crawl_topics tx st us acc = Inr ts"
        using Cons.prems Inr by (simp add: Let_def)
      then obtain new where "ts = acc @ new" "subseq (map topic_url new) (map full_url_of us)"
        using Cons.IH by blast
      then show ?thesis by auto
    next
      case (Cons f0 fs)
      let ?t = "\<lparr>topic_url = full_url_of u, ttitle = ftitle f0, tsize = fsize f0,
                 links = f0 # fs\<rparr>"
      have "crawl_topics tx st us (acc @ [?t]) = Inr ts"
        using Cons.prems Inr Cons by (simp add: Let_def)
      then obtain new where new: "ts = (acc @ [?t]) @ new"
          "subseq (map topic_url new) (map full_url_of us)"
        using Cons.IH by blast
      have "ts = acc @ (?t # new)"
        using new(1) by simp
      moreover have "subseq (map topic_url (?t # new)) (map full_url_of (u # us))"
        using new(2) by simp
      ultimately show ?thesis by blast
    qed
  qed
qed

lemma crawl_tbl_sync_window:
  assumes "crawl_tbl_sync tx st = Inr torrents"
  shows "length torrents \<le> MAX_TOPICS"
proof (cases "home_page st")
  case (Inl e)
  then have "torrents = []"
    using assms by (simp add: crawl_tbl_sync_def split: if_splits)
  then show ?thesis by simp
next
  case (Inr hrefs)
  then have "crawl_topics tx st (visited_links hrefs) [] = Inr torrents"
    using assms by (simp add: crawl_tbl_sync_def)
  then have "subseq (map topic_url torrents) (map full_url_of (visited_links hrefs))"
    using crawl_topics_window by fastforce
  then have "length (map topic_url torrents) \<le> length (map full_url_of (visited_links hrefs))"
    by (rule list_emb_length)
  then show ?thesis
    using visited_links_bounded [of hrefs] by simp
qed

lemma cycle_torrents_window:
  assumes "cycle_torrents ev n = Inr torrents"
  shows "length torrents \<le> MAX_TOPICS"
proof (cases "crawl_tbl ev n")
  case (Inl e)
  then have "torrents = []"
    using assms by (simp add: cycle_torrents_def split: if_splits)
  then show ?thesis by simp
next
  case (Inr ts)
  then have "torrents = ts" using assms by (simp add: cycle_torrents_def)
  moreover have "crawl_tbl_sync (text_ops ev) (site_at ev n) = Inr ts"
    using Inr by (simp add: crawl_tbl_def split: option.splits)
  ultimately show ?thesis
    using crawl_tbl_sync_window by blast
qed

text \<open>
  C8. One call of \<open>_crawl_tbl_sync\<close> returns at most \<open>_MAX_TOPICS\<close>, that is 15,
  topics, and so does the list a poll cycle works on. The topic links the crawl visits
  are the first 15 of the page's links without repetitions, each at the place of its first
  occurrence (the list read backwards, with every repetition but the last removed, read
  backwards again), and the topics returned come from these links in this order, at most
  one from each.
\<close>

theorem crawl_window_bounded:
  assumes "crawl_tbl_sync tx st = Inr torrents"
    and "cycle_torrents ev n = Inr cycle_topics"
  shows "MAX_TOPICS = 15
       \<and> length torrents \<le> MAX_TOPICS
       \<and> length cycle_topics \<le> MAX_TOPICS
       \<and> (home_page st = Inr hrefs \<longrightarrow>
             subseq (map topic_url torrents) (map full_url_of (visited_links hrefs))
             \<and> length (visited_links hrefs) \<le> MAX_TOPICS
             \<and> distinct (visited_links hrefs)
             \<and> visited_links hrefs =
                  take MAX_TOPICS (rev (remdups (rev (filter (\<lambda>h. h \<noteq> []) hrefs)))))"
proof -
  have "subseq (map topic_url torrents) (map full_url_of (visited_links hrefs))"
    if "home_page st = Inr hrefs"
    using that assms(1) crawl_topics_window [of tx st "visited_links hrefs" "[]" torrents]
    by (auto simp: crawl_tbl_sync_def)
  moreover have "distinct (visited_links hrefs)"
    by (simp add: visited_links_def distinct_fromkeys)
  moreover have "visited_links hrefs =
        take MAX_TOPICS (rev (remdups (rev (filter (\<lambda>h. h \<noteq> []) hrefs))))"
    by (simp add: visited_links_def fromkeys_first_occurrence)
  moreover have "MAX_TOPICS = 15"
    by (simp add: MAX_TOPICS_def)
  ultimately show ?thesis
    using crawl_tbl_sync_window [OF assms(1)] cycle_torrents_window [OF assms(2)]
      visited_links_bounded [of hrefs]
    by blast
qed

lemma many_visited:
  "visited_links many_hrefs = map (\<lambda>x. ''/t/'' @ [x]) ''abcdefghijklmno''"
  by (simp add: visited_links_def fromkeys_def many_hrefs_def MAX_TOPICS_def)

lemma many_crawl:
  "crawl_tbl_sync demo_text many_site =
     Inr (map (\<lambda>x. demo_topic\<lparr>topic_url := BASE_URL @ ''/t/'' @ [x]\<rparr>) ''abcdefghijklmno'')"
  by (simp add: crawl_tbl_sync_def many_site_def demo_site_def many_visited full_url_of_def
      file_links_of_def file_of_tag_def List.map_filter_def demo_text_def demo_topic_def
      demo_file_def is_Exception_def)

theorem crawl_window_bounded_witness:
  "home_page many_site = Inr many_hrefs
   \<and> length many_hrefs = 18
   \<and> crawl_tbl_sync demo_text many_site =
       Inr (map (\<lambda>x. demo_topic\<lparr>topic_url := BASE_URL @ ''/t/'' @ [x]\<rparr>) ''abcdefghijklmno'')
   \<and> cycle_torrents (demo_env\<lparr>site_at := (\<lambda>n. many_site)\<rparr>) 0 =
       Inr (map (\<lambda>x. demo_topic\<lparr>topic_url := BASE_URL @ ''/t/'' @ [x]\<rparr>) ''abcdefghijklmno'')
   \<and> length (map (\<lambda>x. demo_topic\<lparr>topic_url := BASE_URL @ ''/t/'' @ [x]\<rparr>) ''abcdefghijklmno'')
       \<le> MAX_TOPICS
   \<and> distinct (visited_links many_hrefs)
   \<and> visited_links many_hrefs = map (\<lambda>x. ''/t/'' @ [x]) ''abcdefghijklmno''"
proof -
  have home: "home_page many_site = Inr many_hrefs"
    by (simp add: many_site_def)
  have len: "length many_hrefs = 18"
    by (simp add: many_hrefs_def)
  have cyc: "cycle_torrents (demo_env\<lparr>site_at := (\<lambda>n. many_site)\<rparr>) 0 =
       Inr (map (\<lambda>x. demo_topic\<lparr>topic_url := BASE_URL @ ''/t/'' @ [x]\<rparr>) ''abcdefghijklmno'')"
    by (simp add: cycle_torrents_def crawl_tbl_def demo_env_def many_crawl)
  from crawl_window_bounded [OF many_crawl cyc, of many_hrefs]
  show ?thesis
    using home len many_crawl cyc many_visited by simp
qed

subsection \<open>The delivery file name\<close>

lemma safe_char_underscore: "safe_char CHR ''_''"
  by (simp add: safe_char_def)

lemma re_sub_unsafe_safe: "list_all safe_char (re_sub_unsafe name)"
  by (induction name rule: re_sub_unsafe.induct) (simp_all add: safe_char_underscore)

lemma re_sub_unsafe_id: "list_all safe_char name \<Longrightarrow> re_sub_unsafe name = name"
  by (induction name) simp_all

text \<open>
  The substitution read on runs: a stretch of characters of the class is kept, and a
  maximal run of other characters becomes one underscore. Stripping leaves nothing
  exactly when the string holds underscores only.
\<close>

lemma re_sub_unsafe_safe_prefix:
  "list_all safe_char xs \<Longrightarrow> re_sub_unsafe (xs @ ys) = xs @ re_sub_unsafe ys"
  by (induction xs) simp_all

lemma re_sub_unsafe_run:
  assumes "xs \<noteq> []" and "list_all (\<lambda>c. \<not> safe_char c) xs"
    and "ys = [] \<or> safe_char (hd ys)"
  shows "re_sub_unsafe (xs @ ys) = CHR ''_'' # re_sub_unsafe ys"
proof -
  obtain x xs' where xs: "xs = x # xs'"
    using assms(1) by (cases xs) auto
  have "dropWhile (\<lambda>d. \<not> safe_char d) (xs' @ ys) = ys"
    using assms(2,3) xs by (cases ys) (auto simp: dropWhile_append3 list_all_iff dropWhile_eq_Nil_conv)
  then show ?thesis
    using assms(2) xs by simp
qed

lemma strip_underscores_empty:
  "strip_underscores s = [] \<longleftrightarrow> set s \<subseteq> {CHR ''_''}"
proof -
  let ?P = "\<lambda>c. c = CHR ''_''"
  have "strip_underscores s = [] \<longleftrightarrow> (\<forall>x\<in>set (dropWhile ?P s). ?P x)"
    unfolding strip_underscores_def by (simp only: rev_is_Nil_conv dropWhile_eq_Nil_conv set_rev)
  also have "\<dots> \<longleftrightarrow> dropWhile ?P s = []"
  proof
    assume all: "\<forall>x\<in>set (dropWhile ?P s). ?P x"
    show "dropWhile ?P s = []"
    proof (rule ccontr)
      assume ne: "dropWhile ?P s \<noteq> []"
      then have "\<not> ?P (hd (dropWhile ?P s))"
        by (rule hd_dropWhile)
      moreover have "hd (dropWhile ?P s) \<in> set (dropWhile ?P s)"
        using ne by (rule hd_in_set)
      ultimately show False using all by blast
    qed
  next
    assume e: "dropWhile ?P s = []"
    show "\<forall>x\<in>set (dropWhile ?P s). ?P x"
      by (simp only: e list.set ball_empty)
  qed
  also have "\<dots> \<longleftrightarrow> (\<forall>x\<in>set s. ?P x)"
    by (simp only: dropWhile_eq_Nil_conv)
  also have "\<dots> \<longleftrightarrow> set s \<subseteq> {CHR ''_''}"
    by blast
  finally show ?thesis .
qed

lemma strip_underscores_subset: "set (strip_underscores s) \<subseteq> set s"
proof -
  have "set (strip_underscores s) \<subseteq> set (dropWhile (\<lambda>c. c = CHR ''_'') s)"
    unfolding strip_underscores_def using set_dropWhileD by fastforce
  also have "\<dots> \<subseteq> set s"
    using set_dropWhileD by fastforce
  finally show ?thesis .
qed

lemma strip_underscores_safe:
  "list_all safe_char s \<Longrightarrow> list_all safe_char (strip_underscores s)"
  using strip_underscores_subset [of s] by (auto simp: list_all_iff)

lemma suffix_safe: "list_all safe_char ''.torrent''"
  by (simp add: safe_char_def)

lemma default_safe: "list_all safe_char ''tbl_torrent''"
  by (simp add: safe_char_def)

text \<open>
  C9, as the code has it. The file name is never empty, every character of it is in
  \<open>[0-9A-Za-z._-]\<close>, and it is the stem followed by \<open>.torrent\<close>, where the stem is
  the title with every maximal run of characters outside the class replaced by one
  underscore and the leading and trailing underscores removed, or \<open>tbl_torrent\<close> when
  nothing is left of the title (so also for the empty title).
\<close>

theorem sanitize_filename_shape:
  "sanitize_filename name =
     (if strip_underscores (re_sub_unsafe name) = [] then ''tbl_torrent.torrent''
      else strip_underscores (re_sub_unsafe name) @ ''.torrent'')
   \<and> sanitize_filename name \<noteq> []
   \<and> list_all safe_char (sanitize_filename name)
   \<and> sanitize_filename [] = ''tbl_torrent.torrent''"
proof -
  have eq: "sanitize_filename name =
     (if strip_underscores (re_sub_unsafe name) = [] then ''tbl_torrent.torrent''
      else strip_underscores (re_sub_unsafe name) @ ''.torrent'')"
  proof (cases "name = []")
    case True
    then show ?thesis
      by (simp add: sanitize_filename_def strip_underscores_def)
  next
    case False
    then show ?thesis
      by (simp add: sanitize_filename_def Let_def del: re_sub_unsafe.simps)
  qed
  have ne: "sanitize_filename name \<noteq> []"
    unfolding eq by simp
  have safe: "list_all safe_char (sanitize_filename name)"
    unfolding eq
    using strip_underscores_safe [OF re_sub_unsafe_safe, of name] default_safe suffix_safe
    by simp
  have empty: "sanitize_filename [] = ''tbl_torrent.torrent''"
    by (simp add: sanitize_filename_def)
  show ?thesis
    by (intro conjI) (rule eq, rule ne, rule safe, rule empty)
qed

text \<open>
  C9 as the specification words it, the name being the title without the characters
  outside the class, fails: the blank of \<open>a b\<close> is replaced by an underscore, not
  removed.
\<close>

theorem sanitize_filename_not_a_filter:
  "sanitize_filename ''a b'' = ''a_b.torrent''
   \<and> sanitize_filename ''a b'' \<noteq> filter safe_char ''a b'' @ ''.torrent''"
  by (simp add: sanitize_filename_def strip_underscores_def safe_char_def)

subsection \<open>The recorded command chat\<close>

lemma trigger_branch:
  "unconfigured_triggers (stretch s (snd (trigger_qbleech ev l title s)))
     = (if truthy_ref (trigger_chat_ref (config_dict ev (now s)) s) then {} else {l})
   \<and> triggers_resolve (rev (stretch s (snd (trigger_qbleech ev l title s))))
     = truthy_ref (trigger_chat_ref (config_dict ev (now s)) s)"
proof -
  let ?s' = "snd (trigger_qbleech ev l title s)"
  from trigger_shape [OF prod.collapse [symmetric, of "trigger_qbleech ev l title s"]]
  obtain mid where t: "trace ?s' = mid @ EvTrigger l # trace s"
    and mid: "if truthy_ref (trigger_chat_ref (config_dict ev (now s)) s)
              then (\<exists>ref m. mid = [EvGetChat ref] \<or> mid = [EvMirrorLeech m, EvGetChat ref]
                                \<or> mid = [EvMirrorLeech m])
              else mid = [EvNotConfigured l]"
    by blast
  have "trace ?s' = (mid @ [EvTrigger l]) @ trace s"
    using t by simp
  then have st: "stretch s ?s' = mid @ [EvTrigger l]"
    by (rule stretchI)
  show ?thesis
  proof (cases "truthy_ref (trigger_chat_ref (config_dict ev (now s)) s)")
    case True
    with mid obtain ref m where "mid = [EvGetChat ref] \<or> mid = [EvMirrorLeech m, EvGetChat ref]
                                \<or> mid = [EvMirrorLeech m]"
      by auto
    then show ?thesis
      unfolding st using True by auto
  next
    case False
    with mid have "mid = [EvNotConfigured l]"
      by simp
    then show ?thesis
      unfolding st using False by simp
  qed
qed

text \<open>
  C10, as the code has it. A start that is answered "started" records a command chat
  that is not \<open>None\<close> (the configured command chat when that is truthy, the chat id of
  the operator's message otherwise), and the run it creates never changes it. Line 190
  tests the truthiness of the reference found on line 189, not whether it is \<open>None\<close>:
  an invocation of \<open>_trigger_qbleech\<close> takes the "not configured; skipping" branch
  exactly when that reference is falsy, and goes on to the resolution of the chat exactly
  when it is truthy. So when the configured command chat is truthy, or the operator's chat
  id is not 0, or \<open>config_dict\<close> holds a truthy command chat or channel at every
  moment, no trigger of the run takes that branch and each one is directly followed by a
  step of the chat resolution.
\<close>

theorem command_chat_recorded_for_the_run:
  assumes "start_monitor cfg cid s = (Started, s1)"
    and "tamilblasters_monitor ev c n s1 = (r, s2)"
  shows "monitor_command_chat s1 =
           py_or (auto_tbl_command_chat cfg) (Some (ChatId cid))
       \<and> monitor_command_chat s1 \<noteq> None
       \<and> monitor_command_chat s2 = monitor_command_chat s1
       \<and> trace s2 = stretch s1 s2 @ trace s1
       \<and> (\<forall>l title s3.
            unconfigured_triggers (stretch s3 (snd (trigger_qbleech ev l title s3)))
              = (if truthy_ref (trigger_chat_ref (config_dict ev (now s3)) s3) then {} else {l})
            \<and> triggers_resolve (rev (stretch s3 (snd (trigger_qbleech ev l title s3))))
              = truthy_ref (trigger_chat_ref (config_dict ev (now s3)) s3))
       \<and> (truthy_ref (auto_tbl_command_chat cfg) \<or> cid \<noteq> 0
            \<or> (\<forall>k. truthy_ref (py_or (auto_tbl_command_chat (config_dict ev k))
                                       (auto_tbl_channel (config_dict ev k))))
          \<longrightarrow> unconfigured_triggers (stretch s1 s2) = {}
              \<and> triggers_resolve (rev (stretch s1 s2)))"
proof -
  have cc: "monitor_command_chat s1 = py_or (auto_tbl_command_chat cfg) (Some (ChatId cid))"
    using assms(1) by (auto simp: start_monitor_def split: option.splits if_splits)
  have nonnull: "monitor_command_chat s1 \<noteq> None"
    unfolding cc by (cases "auto_tbl_command_chat cfg") (auto simp: py_or_def)
  note rel = monitor_run_rel [OF assms(2)]
  have kept: "monitor_command_chat s2 = monitor_command_chat s1"
    using rel by (rule conjunct1)
  have ext: "trace s2 = stretch s1 s2 @ trace s1"
    using rel by (elim conjE)
  have each: "\<forall>l title s3.
            unconfigured_triggers (stretch s3 (snd (trigger_qbleech ev l title s3)))
              = (if truthy_ref (trigger_chat_ref (config_dict ev (now s3)) s3) then {} else {l})
            \<and> triggers_resolve (rev (stretch s3 (snd (trigger_qbleech ev l title s3))))
              = truthy_ref (trigger_chat_ref (config_dict ev (now s3)) s3)"
    by (intro allI) (rule trigger_branch)
  have safe: "truthy_ref (auto_tbl_command_chat cfg) \<or> cid \<noteq> 0
            \<or> (\<forall>k. truthy_ref (py_or (auto_tbl_command_chat (config_dict ev k))
                                       (auto_tbl_channel (config_dict ev k))))
          \<longrightarrow> unconfigured_triggers (stretch s1 s2) = {}
              \<and> triggers_resolve (rev (stretch s1 s2))"
  proof
    assume "truthy_ref (auto_tbl_command_chat cfg) \<or> cid \<noteq> 0
            \<or> (\<forall>k. truthy_ref (py_or (auto_tbl_command_chat (config_dict ev k))
                                       (auto_tbl_channel (config_dict ev k))))"
    then have "always_configured ev s1"
    proof (elim disjE)
      assume "truthy_ref (auto_tbl_command_chat cfg)"
      then show ?thesis
        unfolding always_configured_def cc by (simp add: py_or_def)
    next
      assume "cid \<noteq> 0"
      then show ?thesis
        unfolding always_configured_def cc by (simp add: py_or_def)
    next
      assume "\<forall>k. truthy_ref (py_or (auto_tbl_command_chat (config_dict ev k))
                                       (auto_tbl_channel (config_dict ev k)))"
      then show ?thesis
        unfolding always_configured_def by (rule disjI2)
    qed
    then show "unconfigured_triggers (stretch s1 s2) = {}
              \<and> triggers_resolve (rev (stretch s1 s2))"
      using rel by (elim conjE) (erule (1) mp)
  qed
  show ?thesis
    by (intro conjI cc nonnull kept ext each safe)
qed

lemma zero_started_state_eq:
  "zero_started_state =
     \<lparr>monitor_task = Some \<lparr>task_upload_chat = ChatId (- 1001), task_done = False, task_cancel_requested = False\<rparr>,
      monitor_last_links = {}, monitor_seen_topics = {},
      monitor_command_chat = Some (ChatId 0), command_chat_cache = None, trace = []\<rparr>"
  by (simp add: zero_started_state_def model_defs demo_defs)

text \<open>
  The theorem at work: the start by a message of chat 42 and the run that delivers
  \<open>L1\<close>, triggers the download and is then cancelled.
\<close>

theorem command_chat_recorded_for_the_run_witness:
  "start_monitor demo_cfg 42 initial_state = (Started, started_state)
   \<and> tamilblasters_monitor demo_env (ChatId (- 1001)) 1 started_state
       = (Some CancelledError, stopped_state)
   \<and> (42 :: int) \<noteq> 0
   \<and> monitor_command_chat started_state = Some (ChatId 42)
   \<and> monitor_command_chat stopped_state = monitor_command_chat started_state
   \<and> EvTrigger ''L1'' \<in> set (stretch started_state stopped_state)
   \<and> unconfigured_triggers (stretch started_state stopped_state) = {}
   \<and> triggers_resolve (rev (stretch started_state stopped_state))"
proof -
  have start: "start_monitor demo_cfg 42 initial_state = (Started, started_state)"
    unfolding started_state_def
    by (simp add: start_monitor_def demo_cfg_def initial_state_def)
  have cid: "(42 :: int) \<noteq> 0"
    by simp
  have cc: "monitor_command_chat started_state = Some (ChatId 42)"
    by (simp add: started_state_eq)
  have trig: "EvTrigger ''L1'' \<in> set (stretch started_state stopped_state)"
    by (simp add: stretch_def started_state_eq stopped_state_eq)
  note run = command_chat_recorded_for_the_run [OF start first_run_stopped]
  note safe = run [THEN conjunct2, THEN conjunct2, THEN conjunct2, THEN conjunct2,
      THEN conjunct2, THEN mp, OF disjI2, OF disjI1, OF cid]
  show ?thesis
    by (intro conjI start first_run_stopped cid cc
        run [THEN conjunct2, THEN conjunct2, THEN conjunct1] trig
        safe [THEN conjunct1] safe [THEN conjunct2])
qed

text \<open>
  C10 as the specification words it, "the recorded reference is always non-null, so the
  not-configured branch is unreachable while a run is active", fails: the reference
  recorded by a start from a message whose chat id is 0 is not \<open>None\<close> but is falsy, and
  when both keys have been removed from \<open>config_dict\<close> since, the trigger for \<open>L1\<close> in
  the first poll cycle of the run takes the "not configured; skipping" branch and does
  not go on to the resolution of the chat.
\<close>

theorem unconfigured_branch_reached:
  "start_monitor demo_cfg 0 initial_state = (Started, zero_started_state)
   \<and> monitor_command_chat zero_started_state = Some (ChatId 0)
   \<and> monitor_command_chat zero_started_state \<noteq> None
   \<and> fst (tamilblasters_monitor env_unconfigured (ChatId (- 1001)) 1 zero_started_state) = None
   \<and> trace (snd (tamilblasters_monitor env_unconfigured (ChatId (- 1001)) 1 zero_started_state))
       = [EvSleep, EvNotConfigured ''L1'', EvTrigger ''L1'',
          EvSend (ChatId (- 1001)) ''L1'' ''a_b.torrent'' True, EvDownload ''L1'', EvCrawl]
   \<and> unconfigured_triggers
        (trace (snd (tamilblasters_monitor env_unconfigured (ChatId (- 1001)) 1
                       zero_started_state))) = {''L1''}
   \<and> \<not> triggers_resolve
        (rev (trace (snd (tamilblasters_monitor env_unconfigured (ChatId (- 1001)) 1
                            zero_started_state))))"
  unfolding zero_started_state_eq
  by (simp add: model_defs demo_defs env_unconfigured_def demo_filename)

end
